theory Spec2Isabelle
  imports Main "HOL-Library.Sublist" "HOL-Library.Word"
begin

section \<open>The address reconciliation daemon of main.go\<close>

text \<open>
  The daemon polls an address service, compares the answer with the newest row of the
  table \<open>ip_store\<close> and with the value of the monitored key of the file \<open>.env\<close>, and
  rewrites the file, restarts a container and records the address when they disagree.

  Every call that leaves the process (the HTTP request, the JSON decoder, the loader of
  the \<open>.env\<close> file, the file system, the \<open>docker\<close> command, the database) is answered by
  a field of the record \<open>outcomes\<close>: one record holds what the outside world answers
  during one pass of the loop of \<open>main\<close>. What the pass does is returned as the new state
  and the list of the log lines and calls it made, in order.
\<close>

subsection \<open>Constants\<close>

text \<open>A \<open>time.Duration\<close> counts nanoseconds.\<close>

type_synonym duration = int

definition second :: duration where
  "second = 1000000000"

definition checkInterval :: duration where
  "checkInterval = 10 * second"

definition retryInterval :: duration where
  "retryInterval = 5 * second"

definition envKey :: string where
  "envKey = ''CHARON_P2P_EXTERNAL_HOSTNAME''"

definition StatusOK :: int where
  "StatusOK = 200"

text \<open>The counter of failed fetches is a Go \<open>int\<close>, 64 bits wide, compared as a signed number.\<close>

type_synonym goint = "64 word"

definition maxConsecutiveErrors :: goint where
  "maxConsecutiveErrors = 5"

definition newline :: char where
  "newline = CHR 0x0A"

subsection \<open>Errors, log lines and calls\<close>

text \<open>
  One constructor for each error value the program builds; the text of the underlying
  cause, which the operating system or a library supplies, is left out.
\<close>

datatype error =
    ErrNetwork
  | ErrStatus int
  | ErrReadResponse
  | ErrParseResponse
  | ErrEmptyIP
  | ErrLoadEnv
  | ErrIPNotFound
  | ErrRestart string
  | ErrReadEnvFile
  | ErrWriteEnvFile
  | ErrRestartAfterUpdate error
  | ErrNoRows
  | ErrQuery
  | ErrInsert

text \<open>One constructor for each \<open>log.Printf\<close> inside the loop and the functions it calls.\<close>

datatype log_msg =
    LogFetching
  | LogFetched string
  | LogRestarting
  | LogRestarted
  | LogUpdatingEnvFile string
  | LogUpdatingIP string string
  | LogNoExistingEntry
  | LogUpdatedEnvFile
  | LogFetchError goint goint error
  | LogMultipleErrors
  | LogEnvWarning error
  | LogNoStoredIP string
  | LogQueryError error
  | LogWillRetryQuery duration
  | LogStoredIP string
  | LogUpdateError error
  | LogRetrying duration
  | LogInsertError error
  | LogInserted string
  | LogNoChange string
  | LogWaiting duration

text \<open>
  What a pass does, in order: a log line, or a call that leaves the process. \<open>WriteFile\<close>
  carries the bytes handed to \<open>os.WriteFile\<close>, \<open>Insert\<close> the address handed to the
  \<open>INSERT\<close> statement, \<open>Sleep\<close> the argument of \<open>time.Sleep\<close>. A call is listed when it
  is made, whether it then succeeds or fails.
\<close>

datatype event =
    Log log_msg
  | HttpGet
  | DotenvLoad
  | ReadFile
  | WriteFile string
  | DockerUp
  | Query
  | Insert string
  | Sleep duration

subsection \<open>The answers of the outside world\<close>

text \<open>
  \<open>json.Unmarshal\<close> into an \<open>IPResponse\<close> either fails, or succeeds and stores the string
  member \<open>ip\<close> of the body when the body has one; otherwise the field keeps the empty
  string it was declared with.
\<close>

datatype unmarshal_outcome = UnmarshalError | Decoded "string option"

text \<open>A failed \<open>os.WriteFile\<close> may have truncated the file: it leaves some content behind.\<close>

datatype write_outcome = Written | WriteFailed string

text \<open>The \<open>docker compose\<close> command exits with status zero, or fails with its output.\<close>

datatype command_outcome = ExitZero | CommandFailed string

record outcomes =
  http_get :: "int option"
  read_body :: bool
  unmarshal :: unmarshal_outcome
  dotenv_load :: bool
  getenv :: string
  query_row :: bool
  read_file :: bool
  write_file :: write_outcome
  docker_up :: command_outcome
  db_insert :: bool

text \<open>
  \<open>http_get\<close> is \<open>None\<close> when \<open>client.Get\<close> returns an error and the status code of the
  response otherwise; \<open>read_body\<close> tells whether \<open>io.ReadAll\<close> succeeds; \<open>dotenv_load\<close>
  whether \<open>godotenv.Load\<close> succeeds and \<open>getenv\<close> what \<open>os.Getenv(envKey)\<close> returns after
  it; \<open>query_row\<close> whether the \<open>SELECT\<close> runs; \<open>read_file\<close> whether \<open>os.ReadFile\<close>
  succeeds; \<open>db_insert\<close> whether the \<open>INSERT\<close> succeeds.

  The value of \<open>getenv\<close> is an answer of its own and is not computed from the bytes of
  the file: \<open>godotenv.Load\<close> and the environment of the process are not part of the
  source, and the loader leaves alone a variable that the process already has.
\<close>

subsection \<open>The state\<close>

text \<open>
  The local variable \<open>consecutiveErrors\<close> of \<open>main\<close>, the bytes of the file \<open>.env\<close>, and
  the \<open>ip\<close> column of the table \<open>ip_store\<close> in the order of insertion. The loop sleeps
  at least \<open>checkInterval\<close> after every insert, so the row with the greatest
  \<open>updated_at\<close> is the one inserted last.
\<close>

record state =
  consecutiveErrors :: goint
  env_file :: string
  ip_store :: "string list"

subsection \<open>The functions of package strings\<close>

text \<open>\<open>strings.Split\<close> with a separator of one byte: the empty string gives one empty piece.\<close>

fun Split :: "string \<Rightarrow> char \<Rightarrow> string list" where
  "Split [] sep = [[]]"
| "Split (c # cs) sep =
     (if c = sep then [] # Split cs sep
      else (case Split cs sep of
              [] \<Rightarrow> [[c]]
            | piece # pieces \<Rightarrow> (c # piece) # pieces))"

fun Join :: "string list \<Rightarrow> string \<Rightarrow> string" where
  "Join [] sep = []"
| "Join [l] sep = l"
| "Join (l # ls) sep = l @ sep @ Join ls sep"

definition HasPrefix :: "string \<Rightarrow> string \<Rightarrow> bool" where
  "HasPrefix s p = prefix p s"

definition TrimPrefix :: "string \<Rightarrow> string \<Rightarrow> string" where
  "TrimPrefix s p = (if HasPrefix s p then drop (length p) s else s)"

subsection \<open>getCurrentIP\<close>

text \<open>Go returns the pair of the value and the error; \<open>None\<close> is the \<open>nil\<close> error.\<close>

definition getCurrentIP :: "outcomes \<Rightarrow> (string \<times> error option) \<times> event list" where
  "getCurrentIP oc =
     (case http_get oc of
        None \<Rightarrow> (('''', Some ErrNetwork), [Log LogFetching, HttpGet])
      | Some status \<Rightarrow>
          if status \<noteq> StatusOK then
            (('''', Some (ErrStatus status)), [Log LogFetching, HttpGet])
          else if \<not> read_body oc then
            (('''', Some ErrReadResponse), [Log LogFetching, HttpGet])
          else
            (case unmarshal oc of
               UnmarshalError \<Rightarrow> (('''', Some ErrParseResponse), [Log LogFetching, HttpGet])
             | Decoded member \<Rightarrow>
                 (let ip = (case member of None \<Rightarrow> '''' | Some v \<Rightarrow> v) in
                  if ip = '''' then (('''', Some ErrEmptyIP), [Log LogFetching, HttpGet])
                  else ((ip, None), [Log LogFetching, HttpGet, Log (LogFetched ip)]))))"

subsection \<open>getEnvIP\<close>

definition getEnvIP :: "outcomes \<Rightarrow> (string \<times> error option) \<times> event list" where
  "getEnvIP oc =
     (if \<not> dotenv_load oc then (('''', Some ErrLoadEnv), [DotenvLoad])
      else (let ip = getenv oc in
            if ip = '''' then (('''', Some ErrIPNotFound), [DotenvLoad])
            else ((ip, None), [DotenvLoad])))"

subsection \<open>restartCharon\<close>

definition restartCharon :: "outcomes \<Rightarrow> error option \<times> event list" where
  "restartCharon oc =
     (case docker_up oc of
        CommandFailed out \<Rightarrow> (Some (ErrRestart out), [Log LogRestarting, DockerUp])
      | ExitZero \<Rightarrow> (None, [Log LogRestarting, DockerUp, Log LogRestarted]))"

subsection \<open>updateEnvFile\<close>

text \<open>The line \<open>fmt.Sprintf("%s=%s", envKey, newIP)\<close>.\<close>

definition keyLine :: "string \<Rightarrow> string" where
  "keyLine newIP = envKey @ ''='' @ newIP"

text \<open>
  The \<open>for\<close> loop over the lines: the first line that starts with the key and \<open>=\<close> is
  overwritten and the loop breaks. The result is the lines, the flag \<open>found\<close> and the
  log line of the replacement.
\<close>

fun scanLines :: "string \<Rightarrow> string list \<Rightarrow> string list \<times> bool \<times> event list" where
  "scanLines newIP [] = ([], False, [])"
| "scanLines newIP (line # rest) =
     (if HasPrefix line (envKey @ ''='') then
        (keyLine newIP # rest, True,
         [Log (LogUpdatingIP (TrimPrefix line (envKey @ ''='')) newIP)])
      else (case scanLines newIP rest of
              (rest', found, evs) \<Rightarrow> (line # rest', found, evs)))"

text \<open>From the split of the input to the join of the output: the bytes to write.\<close>

definition rewriteEnv :: "string \<Rightarrow> string \<Rightarrow> string \<times> event list" where
  "rewriteEnv newIP input =
     (case scanLines newIP (Split input newline) of
        (lines, found, evs) \<Rightarrow>
          if \<not> found then
            (Join (lines @ [keyLine newIP]) [newline], evs @ [Log LogNoExistingEntry])
          else (Join lines [newline], evs))"

definition updateEnvFile :: "outcomes \<Rightarrow> string \<Rightarrow> state \<Rightarrow> error option \<times> state \<times> event list" where
  "updateEnvFile oc newIP s =
     (if \<not> read_file oc then
        (Some ErrReadEnvFile, s, [Log (LogUpdatingEnvFile newIP), ReadFile])
      else
        (case rewriteEnv newIP (env_file s) of
           (output, evs) \<Rightarrow>
             (case write_file oc of
                WriteFailed left \<Rightarrow>
                  (Some ErrWriteEnvFile, s\<lparr>env_file := left\<rparr>,
                   [Log (LogUpdatingEnvFile newIP), ReadFile] @ evs @ [WriteFile output])
              | Written \<Rightarrow>
                  (case restartCharon oc of
                     (Some e, revs) \<Rightarrow>
                       (Some (ErrRestartAfterUpdate e), s\<lparr>env_file := output\<rparr>,
                        [Log (LogUpdatingEnvFile newIP), ReadFile] @ evs
                          @ [WriteFile output, Log LogUpdatedEnvFile] @ revs)
                   | (None, revs) \<Rightarrow>
                       (None, s\<lparr>env_file := output\<rparr>,
                        [Log (LogUpdatingEnvFile newIP), ReadFile] @ evs
                          @ [WriteFile output, Log LogUpdatedEnvFile] @ revs)))))"

subsection \<open>The loop of main\<close>

text \<open>
  \<open>db.QueryRow(...).Scan(&storedIP)\<close>: the newest row, \<open>sql.ErrNoRows\<close> on an empty
  table, another error when the query fails; \<open>storedIP\<close> keeps the empty string on an error.
\<close>

definition queryStoredIP :: "outcomes \<Rightarrow> state \<Rightarrow> string \<times> error option" where
  "queryStoredIP oc s =
     (if \<not> query_row oc then ('''', Some ErrQuery)
      else (case ip_store s of
              [] \<Rightarrow> ('''', Some ErrNoRows)
            | _ # _ \<Rightarrow> (last (ip_store s), None)))"

text \<open>The condition of the \<open>if\<close> statement that guards the update.\<close>

definition updateNeeded :: "error option \<Rightarrow> string \<Rightarrow> string \<Rightarrow> string \<Rightarrow> bool" where
  "updateNeeded err storedIP currentIP envIP =
     (err = Some ErrNoRows \<or> (err = None \<and> storedIP \<noteq> currentIP)
      \<or> (envIP \<noteq> '''' \<and> envIP \<noteq> storedIP))"

text \<open>
  The \<open>if\<close> statement itself: the update and the insert, or the line that nothing
  changed, and the sleep that ends the pass.
\<close>

definition decide ::
  "outcomes \<Rightarrow> string \<Rightarrow> string \<Rightarrow> string \<Rightarrow> error option \<Rightarrow> state \<Rightarrow> state \<times> event list" where
  "decide oc currentIP envIP storedIP err s =
     (if updateNeeded err storedIP currentIP envIP then
        (case updateEnvFile oc currentIP s of
           (Some e, s', uevs) \<Rightarrow>
             (s', uevs @ [Log (LogUpdateError e), Log (LogRetrying retryInterval),
                          Sleep retryInterval])
         | (None, s', uevs) \<Rightarrow>
             if db_insert oc then
               (s'\<lparr>ip_store := ip_store s' @ [currentIP]\<rparr>,
                uevs @ [Insert currentIP, Log (LogInserted currentIP),
                        Log (LogWaiting checkInterval), Sleep checkInterval])
             else
               (s', uevs @ [Insert currentIP, Log (LogInsertError ErrInsert),
                            Log (LogWaiting checkInterval), Sleep checkInterval]))
      else
        (s, [Log (LogNoChange currentIP), Log (LogWaiting checkInterval),
             Sleep checkInterval]))"

text \<open>
  The part of the loop body after a fetch that succeeded with \<open>currentIP\<close>: the read of
  the \<open>.env\<close> value, whose failure is only logged, the query, and the three branches on
  its error in the order of the source.
\<close>

definition reconcile :: "outcomes \<Rightarrow> string \<Rightarrow> state \<Rightarrow> state \<times> event list" where
  "reconcile oc currentIP s =
     (case getEnvIP oc of
        ((envIP, eerr), eevs) \<Rightarrow>
          (let wevs = (case eerr of Some e \<Rightarrow> [Log (LogEnvWarning e)] | None \<Rightarrow> []) in
           case queryStoredIP oc s of
             (storedIP, err) \<Rightarrow>
               if err = Some ErrNoRows then
                 (case decide oc currentIP envIP storedIP err s of
                    (s', devs) \<Rightarrow>
                      (s', eevs @ wevs @ [Query, Log (LogNoStoredIP currentIP)] @ devs))
               else
                 (case err of
                    Some e \<Rightarrow>
                      (s, eevs @ wevs
                         @ [Query, Log (LogQueryError e),
                            Log (LogWillRetryQuery retryInterval), Sleep retryInterval])
                  | None \<Rightarrow>
                      (case decide oc currentIP envIP storedIP err s of
                         (s', devs) \<Rightarrow>
                           (s', eevs @ wevs @ [Query, Log (LogStoredIP storedIP)] @ devs)))))"

text \<open>One pass of the \<open>for\<close> loop.\<close>

definition tick :: "outcomes \<Rightarrow> state \<Rightarrow> state \<times> event list" where
  "tick oc s =
     (case getCurrentIP oc of
        ((currentIP, Some e), fevs) \<Rightarrow>
          (let n = consecutiveErrors s + 1 in
           if maxConsecutiveErrors \<le>s n then
             (s\<lparr>consecutiveErrors := n\<rparr>,
              fevs @ [Log (LogFetchError n maxConsecutiveErrors e), Log LogMultipleErrors,
                      Sleep (checkInterval * 2)])
           else
             (s\<lparr>consecutiveErrors := n\<rparr>,
              fevs @ [Log (LogFetchError n maxConsecutiveErrors e), Sleep retryInterval]))
      | ((currentIP, None), fevs) \<Rightarrow>
          (case reconcile oc currentIP (s\<lparr>consecutiveErrors := 0\<rparr>) of
             (s', evs) \<Rightarrow> (s', fevs @ evs)))"

text \<open>
  The loop never ends by itself; a run is the passes answered by a finite list of
  outcomes, one per pass.
\<close>

fun run :: "outcomes list \<Rightarrow> state \<Rightarrow> state \<times> event list" where
  "run [] s = (s, [])"
| "run (oc # ocs) s =
     (case tick oc s of
        (s', evs) \<Rightarrow> (case run ocs s' of (s'', evs') \<Rightarrow> (s'', evs @ evs')))"

subsection \<open>Notions used to state the properties\<close>

text \<open>The lines of a file content that begin with the monitored key and \<open>=\<close>.\<close>

definition keyLines :: "string \<Rightarrow> string list" where
  "keyLines content = filter (\<lambda>l. HasPrefix l (envKey @ ''='')) (Split content newline)"

text \<open>The index of the first such line (the number of lines when there is none).\<close>

definition firstKeyLine :: "string \<Rightarrow> nat" where
  "firstKeyLine content =
     length (takeWhile (\<lambda>l. \<not> HasPrefix l (envKey @ ''='')) (Split content newline))"

text \<open>
  The calls of a pass that change something outside the process: the write of the file,
  the restart command and the insert, in the order they were made.
\<close>

fun mutation :: "event \<Rightarrow> bool" where
  "mutation (WriteFile _) = True"
| "mutation DockerUp = True"
| "mutation (Insert _) = True"
| "mutation _ = False"

definition mutations :: "event list \<Rightarrow> event list" where
  "mutations evs = filter mutation evs"

text \<open>The arguments of the calls of \<open>time.Sleep\<close>, in order.\<close>

fun sleeps :: "event list \<Rightarrow> duration list" where
  "sleeps [] = []"
| "sleeps (Sleep d # es) = d # sleeps es"
| "sleeps (e # es) = sleeps es"

text \<open>The value \<open>envIP\<close> the loop gets from \<open>getEnvIP\<close>, and what that step logs.\<close>

definition envIP :: "outcomes \<Rightarrow> string" where
  "envIP oc = fst (fst (getEnvIP oc))"

definition envEvents :: "outcomes \<Rightarrow> event list" where
  "envEvents oc = snd (getEnvIP oc)
     @ (case snd (fst (getEnvIP oc)) of Some e \<Rightarrow> [Log (LogEnvWarning e)] | None \<Rightarrow> [])"

text \<open>The events of a pass from the read of the \<open>.env\<close> value to the log line of the query.\<close>

definition queryEvents :: "outcomes \<Rightarrow> state \<Rightarrow> string \<Rightarrow> event list" where
  "queryEvents oc s cur =
     envEvents oc @ [Query]
       @ (if ip_store s = [] then [Log (LogNoStoredIP cur)]
          else [Log (LogStoredIP (last (ip_store s)))])"

text \<open>The condition of the \<open>if\<close> statement on the values the pass has read.\<close>

definition required :: "outcomes \<Rightarrow> state \<Rightarrow> string \<Rightarrow> bool" where
  "required oc s currentIP =
     updateNeeded (snd (queryStoredIP oc s)) (fst (queryStoredIP oc s)) currentIP (envIP oc)"

text \<open>
  The calls an update with \<open>cur\<close> makes that change something, depending on what the
  file system and the restart command answer: the write follows a successful read, the
  restart a successful write, the insert a successful restart.
\<close>

definition updateMutations :: "outcomes \<Rightarrow> string \<Rightarrow> state \<Rightarrow> event list" where
  "updateMutations oc cur s =
     (if \<not> read_file oc then []
      else WriteFile (fst (rewriteEnv cur (env_file s)))
        # (case write_file oc of
             WriteFailed left \<Rightarrow> []
           | Written \<Rightarrow>
               DockerUp
                 # (case docker_up oc of CommandFailed out \<Rightarrow> [] | ExitZero \<Rightarrow> [Insert cur])))"

text \<open>
  The decision rule in the words of the specification, on the rows of the table, the
  fetched address and the value read from the configuration: (a) no stored record
  exists, or (b) a stored record exists and its value differs from the fetched address,
  or (c) the configuration value is present and differs from the stored value.
\<close>

definition decisionRule :: "string list \<Rightarrow> string \<Rightarrow> string \<Rightarrow> bool" where
  "decisionRule store fetched config =
     (store = []
      \<or> (store \<noteq> [] \<and> last store \<noteq> fetched)
      \<or> (store \<noteq> [] \<and> config \<noteq> '''' \<and> config \<noteq> last store))"

subsection \<open>The environment of the process\<close>

text \<open>
  \<open>getEnvIP\<close> reads its value with \<open>os.Getenv\<close> after \<open>godotenv.Load\<close>. The library is
  not part of the source; the definitions below record its documented behaviour for a
  file of plain \<open>KEY=VALUE\<close> lines: \<open>Load\<close> sets the variables of the file that the
  process does not have yet and never replaces one that exists; where the key occurs more
  than once in the file, the last line counts. The variable of the monitored key is
  \<open>None\<close> while the process does not have it.
\<close>

definition fileValue :: "string \<Rightarrow> string option" where
  "fileValue content =
     (case keyLines content of
        [] \<Rightarrow> None
      | l # ls \<Rightarrow> Some (TrimPrefix (last (l # ls)) (envKey @ ''='')))"

definition loadEnv :: "string option \<Rightarrow> string \<Rightarrow> string option" where
  "loadEnv var content = (case var of Some v \<Rightarrow> Some v | None \<Rightarrow> fileValue content)"

text \<open>
  A pass of the loop in a process whose variable is the first component of the pair.
  \<open>Load\<close> is called in \<open>getEnvIP\<close>, so only after a fetch that succeeded, and it sets the
  variable only when it succeeds; \<open>os.Getenv\<close> then gives the variable, or the empty
  string when the process does not have it. Nothing else in the program sets the
  variable: \<open>updateEnvFile\<close> writes the file only. The pass itself is \<open>tick\<close>, with this
  answer of \<open>os.Getenv\<close>.
\<close>

definition liveTick ::
  "outcomes \<Rightarrow> string option \<times> state \<Rightarrow> (string option \<times> state) \<times> event list" where
  "liveTick oc ps =
     (let var = (if snd (fst (getCurrentIP oc)) = None \<and> dotenv_load oc
                 then loadEnv (fst ps) (env_file (snd ps)) else fst ps);
          val = (case var of None \<Rightarrow> '''' | Some v \<Rightarrow> v)
      in case tick (oc\<lparr>getenv := val\<rparr>) (snd ps) of (s', evs) \<Rightarrow> ((var, s'), evs))"

subsection \<open>Sample inputs\<close>

text \<open>Every call succeeds; the service answers \<open>203.0.113.5\<close> and so does the \<open>.env\<close> value.\<close>

definition all_ok :: outcomes where
  "all_ok = \<lparr>http_get = Some 200, read_body = True,
     unmarshal = Decoded (Some ''203.0.113.5''),
     dotenv_load = True, getenv = ''203.0.113.5'', query_row = True, read_file = True,
     write_file = Written, docker_up = ExitZero, db_insert = True\<rparr>"

text \<open>The same with one call failing, or with another \<open>.env\<close> value.\<close>

definition net_down :: outcomes where
  "net_down = all_ok\<lparr>http_get := None\<rparr>"

definition no_ip_member :: outcomes where
  "no_ip_member = all_ok\<lparr>unmarshal := Decoded None\<rparr>"

definition query_down :: outcomes where
  "query_down = all_ok\<lparr>query_row := False\<rparr>"

definition restart_fails :: outcomes where
  "restart_fails = all_ok\<lparr>docker_up := CommandFailed ''no such service''\<rparr>"

definition insert_fails :: outcomes where
  "insert_fails = all_ok\<lparr>db_insert := False\<rparr>"

definition env_unreadable :: outcomes where
  "env_unreadable = all_ok\<lparr>dotenv_load := False\<rparr>"

definition env_drifted :: outcomes where
  "env_drifted = all_ok\<lparr>getenv := ''198.51.100.7''\<rparr>"

text \<open>A file with the key between two other lines, and one row in the table.\<close>

definition sample_state :: state where
  "sample_state = \<lparr>consecutiveErrors = 0,
     env_file = ''A=1\<newline>CHARON_P2P_EXTERNAL_HOSTNAME=198.51.100.7\<newline>B=2'',
     ip_store = [''198.51.100.7'']\<rparr>"

text \<open>A file that holds the key twice.\<close>

definition twice_state :: state where
  "twice_state = \<lparr>consecutiveErrors = 0,
     env_file = ''CHARON_P2P_EXTERNAL_HOSTNAME=198.51.100.7\<newline>CHARON_P2P_EXTERNAL_HOSTNAME=192.0.2.1'',
     ip_store = [''198.51.100.7'']\<rparr>"

text \<open>The file and the table agree with the address the service answers.\<close>

definition synced_state :: state where
  "synced_state = \<lparr>consecutiveErrors = 0,
     env_file = ''CHARON_P2P_EXTERNAL_HOSTNAME=203.0.113.5'',
     ip_store = [''203.0.113.5'']\<rparr>"

text \<open>The table agrees with the service, the file holds another address.\<close>

definition drifted_state :: state where
  "drifted_state = \<lparr>consecutiveErrors = 0,
     env_file = ''CHARON_P2P_EXTERNAL_HOSTNAME=198.51.100.7'',
     ip_store = [''203.0.113.5'']\<rparr>"

text \<open>The file and the table hold an older address, and the state after the change to the new one.\<close>

definition old_state :: state where
  "old_state = \<lparr>consecutiveErrors = 0,
     env_file = ''CHARON_P2P_EXTERNAL_HOSTNAME=198.51.100.7'',
     ip_store = [''198.51.100.7'']\<rparr>"

definition after_change :: state where
  "after_change = \<lparr>consecutiveErrors = 0,
     env_file = ''CHARON_P2P_EXTERNAL_HOSTNAME=203.0.113.5'',
     ip_store = [''198.51.100.7'', ''203.0.113.5'']\<rparr>"

section \<open>Lemmas on the string functions\<close>

lemma Split_not_Nil: "Split s c \<noteq> []"
  by (induction s) (auto split: list.splits)

lemma Join_Cons: "ls \<noteq> [] \<Longrightarrow> Join (l # ls) sep = l @ sep @ Join ls sep"
  by (cases ls) auto

lemma Join_Split: "Join (Split s c) [c] = s"
proof (induction s)
  case Nil
  show ?case by simp
next
  case (Cons a s)
  show ?case
  proof (cases "a = c")
    case True
    with Cons show ?thesis by (simp add: Join_Cons Split_not_Nil)
  next
    case False
    obtain p ps where sp: "Split s c = p # ps"
      using Split_not_Nil [of s c] by (cases "Split s c") auto
    with Cons False show ?thesis by (cases ps) auto
  qed
qed

lemma Split_no_sep: "l \<in> set (Split s c) \<Longrightarrow> c \<notin> set l"
  by (induction s arbitrary: l) (auto split: if_splits list.splits)

lemma Split_append_sep: "c \<notin> set l \<Longrightarrow> Split (l @ c # r) c = l # Split r c"
  by (induction l) (auto split: list.splits)

lemma Split_no_sep_id: "c \<notin> set l \<Longrightarrow> Split l c = [l]"
  by (induction l) (auto split: list.splits)

lemma Split_Join:
  "ls \<noteq> [] \<Longrightarrow> \<forall>l\<in>set ls. c \<notin> set l \<Longrightarrow> Split (Join ls [c]) c = ls"
proof (induction ls)
  case Nil
  then show ?case by simp
next
  case (Cons l ls)
  show ?case
  proof (cases ls)
    case Nil
    with Cons.prems show ?thesis by (simp add: Split_no_sep_id)
  next
    case (Cons m ms)
    with Cons.IH Cons.prems show ?thesis by (simp add: Split_append_sep)
  qed
qed

lemma Join_snoc: "ls \<noteq> [] \<Longrightarrow> Join (ls @ [x]) sep = Join ls sep @ sep @ x"
  by (induction ls sep rule: Join.induct) auto

section \<open>Lemmas on updateEnvFile\<close>

lemma scanLines_found:
  "fst (snd (scanLines newIP ls)) = (\<exists>l\<in>set ls. HasPrefix l (envKey @ ''=''))"
  by (induction ls) (auto split: prod.splits)

lemma scanLines_lines:
  "fst (scanLines newIP ls) =
     (if \<exists>l\<in>set ls. HasPrefix l (envKey @ ''='')
      then ls[length (takeWhile (\<lambda>l. \<not> HasPrefix l (envKey @ ''='')) ls) := keyLine newIP]
      else ls)"
  by (induction ls) (auto split: prod.splits)

lemma scanLines_events:
  "(fst (snd (scanLines newIP ls)) \<longrightarrow>
      (\<exists>old. snd (snd (scanLines newIP ls)) = [Log (LogUpdatingIP old newIP)]))
   \<and> (\<not> fst (snd (scanLines newIP ls)) \<longrightarrow> snd (snd (scanLines newIP ls)) = [])"
  by (induction ls) (auto split: prod.splits)

lemma keyLines_Nil_iff:
  "keyLines content = [] \<longleftrightarrow>
     \<not> (\<exists>l\<in>set (Split content newline). HasPrefix l (envKey @ ''=''))"
  by (auto simp: keyLines_def filter_empty_conv)

lemma rewriteEnv_found:
  assumes "keyLines input \<noteq> []"
  shows "fst (rewriteEnv newIP input) =
     Join ((Split input newline)[firstKeyLine input := keyLine newIP]) [newline]"
  using assms scanLines_found [of newIP "Split input newline"]
    scanLines_lines [of newIP "Split input newline"]
  by (auto simp: rewriteEnv_def keyLines_Nil_iff firstKeyLine_def split: prod.splits)

lemma rewriteEnv_missing:
  assumes "keyLines input = []"
  shows "fst (rewriteEnv newIP input) = Join (Split input newline @ [keyLine newIP]) [newline]"
  using assms scanLines_found [of newIP "Split input newline"]
    scanLines_lines [of newIP "Split input newline"]
  by (auto simp: rewriteEnv_def keyLines_Nil_iff split: prod.splits)

lemma rewriteEnv_events:
  "\<exists>m. snd (rewriteEnv newIP input) = [Log m]
     \<and> (m = LogNoExistingEntry \<or> (\<exists>old. m = LogUpdatingIP old newIP))"
  using scanLines_events [of newIP "Split input newline"]
  by (auto simp: rewriteEnv_def split: prod.splits)

lemma takeWhile_first:
  "\<exists>l\<in>set ls. P l \<Longrightarrow>
   length (takeWhile (\<lambda>l. \<not> P l) ls) < length ls
   \<and> P (ls ! length (takeWhile (\<lambda>l. \<not> P l) ls))"
  by (induction ls) auto

lemma takeWhile_before:
  "j < length (takeWhile (\<lambda>l. \<not> P l) ls) \<Longrightarrow> \<not> P (ls ! j)"
  by (induction ls arbitrary: j) (auto simp: nth_Cons' split: if_splits)

lemma firstKeyLine_found:
  assumes "keyLines content \<noteq> []"
  shows "firstKeyLine content < length (Split content newline)"
    and "HasPrefix (Split content newline ! firstKeyLine content) (envKey @ ''='')"
  using assms takeWhile_first [of "Split content newline" "\<lambda>l. HasPrefix l (envKey @ ''='')"]
  by (simp_all add: keyLines_Nil_iff firstKeyLine_def)

lemma keyLine_prefix: "HasPrefix (keyLine newIP) (envKey @ ''='')"
  by (simp add: keyLine_def HasPrefix_def)

lemma keyLine_no_newline: "newline \<notin> set newIP \<Longrightarrow> newline \<notin> set (keyLine newIP)"
  by (simp add: keyLine_def envKey_def newline_def)

lemma filter_first_update:
  assumes "\<exists>l\<in>set ls. P l" and "P k"
  shows "filter P (ls[length (takeWhile (\<lambda>l. \<not> P l) ls) := k]) = k # tl (filter P ls)"
  using assms by (induction ls) (auto simp: filter_empty_conv)

text \<open>The bytes to write, as the join of the lines.\<close>

lemma rewriteEnv_output:
  "fst (rewriteEnv newIP input) =
     (if keyLines input = []
      then Join (Split input newline @ [keyLine newIP]) [newline]
      else Join ((Split input newline)[firstKeyLine input := keyLine newIP]) [newline])"
  using rewriteEnv_found [of input newIP] rewriteEnv_missing [of input newIP] by simp

text \<open>The lines of the bytes to write, when the new value holds no line break.\<close>

lemma rewriteEnv_split:
  assumes nl: "newline \<notin> set newIP"
  shows "Split (fst (rewriteEnv newIP input)) newline =
     (if keyLines input = []
      then Split input newline @ [keyLine newIP]
      else (Split input newline)[firstKeyLine input := keyLine newIP])"
proof (cases "keyLines input = []")
  case True
  have "\<forall>l\<in>set (Split input newline @ [keyLine newIP]). newline \<notin> set l"
    using keyLine_no_newline [OF nl] Split_no_sep by auto
  then have "Split (Join (Split input newline @ [keyLine newIP]) [newline]) newline
      = Split input newline @ [keyLine newIP]"
    by (intro Split_Join) auto
  then show ?thesis using True by (simp add: rewriteEnv_output)
next
  case False
  let ?ls = "(Split input newline)[firstKeyLine input := keyLine newIP]"
  have "\<forall>l\<in>set ?ls. newline \<notin> set l"
  proof
    fix l assume "l \<in> set ?ls"
    then have "l \<in> insert (keyLine newIP) (set (Split input newline))"
      using set_update_subset_insert by fast
    then show "newline \<notin> set l"
      using keyLine_no_newline [OF nl] Split_no_sep by auto
  qed
  moreover have "?ls \<noteq> []" using Split_not_Nil by simp
  ultimately have "Split (Join ?ls [newline]) newline = ?ls"
    by (rule Split_Join [rotated])
  then show ?thesis using False by (simp add: rewriteEnv_output)
qed

text \<open>The key lines of the bytes to write: the first one is replaced, or a first one is added.\<close>

lemma keyLines_rewriteEnv:
  assumes nl: "newline \<notin> set newIP"
  shows "keyLines (fst (rewriteEnv newIP input)) = keyLine newIP # tl (keyLines input)"
proof (cases "keyLines input = []")
  case True
  then have "filter (\<lambda>l. HasPrefix l (envKey @ ''='')) (Split input newline) = []"
    by (simp add: keyLines_def)
  then show ?thesis
    using True rewriteEnv_split [OF nl, of input] keyLine_prefix [of newIP]
    by (simp add: keyLines_def)
next
  case False
  then have ex: "\<exists>l\<in>set (Split input newline). HasPrefix l (envKey @ ''='')"
    by (simp add: keyLines_Nil_iff)
  show ?thesis
    using False rewriteEnv_split [OF nl, of input]
      filter_first_update [OF ex keyLine_prefix, of newIP]
    by (simp add: keyLines_def firstKeyLine_def)
qed

text \<open>updateEnvFile, outcome by outcome.\<close>

lemma updateEnvFile_cases:
  "updateEnvFile oc newIP s =
     (if \<not> read_file oc then
        (Some ErrReadEnvFile, s, [Log (LogUpdatingEnvFile newIP), ReadFile])
      else
        (case write_file oc of
           WriteFailed left \<Rightarrow>
             (Some ErrWriteEnvFile, s\<lparr>env_file := left\<rparr>,
              [Log (LogUpdatingEnvFile newIP), ReadFile] @ snd (rewriteEnv newIP (env_file s))
                @ [WriteFile (fst (rewriteEnv newIP (env_file s)))])
         | Written \<Rightarrow>
             (case docker_up oc of
                CommandFailed out \<Rightarrow>
                  (Some (ErrRestartAfterUpdate (ErrRestart out)),
                   s\<lparr>env_file := fst (rewriteEnv newIP (env_file s))\<rparr>,
                   [Log (LogUpdatingEnvFile newIP), ReadFile] @ snd (rewriteEnv newIP (env_file s))
                     @ [WriteFile (fst (rewriteEnv newIP (env_file s))), Log LogUpdatedEnvFile,
                        Log LogRestarting, DockerUp])
              | ExitZero \<Rightarrow>
                  (None, s\<lparr>env_file := fst (rewriteEnv newIP (env_file s))\<rparr>,
                   [Log (LogUpdatingEnvFile newIP), ReadFile] @ snd (rewriteEnv newIP (env_file s))
                     @ [WriteFile (fst (rewriteEnv newIP (env_file s))), Log LogUpdatedEnvFile,
                        Log LogRestarting, DockerUp, Log LogRestarted]))))"
  by (simp add: updateEnvFile_def restartCharon_def
      split: prod.splits write_outcome.splits command_outcome.splits)

lemma updateEnvFile_written:
  "read_file oc \<Longrightarrow> write_file oc = Written \<Longrightarrow>
   env_file (fst (snd (updateEnvFile oc newIP s))) = fst (rewriteEnv newIP (env_file s))"
  by (simp add: updateEnvFile_cases split: command_outcome.splits)

section \<open>Lemmas on the events\<close>

lemma mutations_append [simp]: "mutations (xs @ ys) = mutations xs @ mutations ys"
  by (simp add: mutations_def)

lemma mutations_Cons [simp]:
  "mutations (e # es) = (if mutation e then e # mutations es else mutations es)"
  by (simp add: mutations_def)

lemma mutations_Nil [simp]: "mutations [] = []"
  by (simp add: mutations_def)

lemma in_mutations: "mutation e \<Longrightarrow> e \<in> set evs \<longleftrightarrow> e \<in> set (mutations evs)"
  by (simp add: mutations_def)

lemma sleeps_append [simp]: "sleeps (xs @ ys) = sleeps xs @ sleeps ys"
  by (induction xs rule: sleeps.induct) auto

lemma getCurrentIP_events:
  "snd (getCurrentIP oc) =
     (case snd (fst (getCurrentIP oc)) of
        Some e \<Rightarrow> [Log LogFetching, HttpGet]
      | None \<Rightarrow> [Log LogFetching, HttpGet, Log (LogFetched (fst (fst (getCurrentIP oc))))])"
  by (simp add: getCurrentIP_def Let_def split: option.splits unmarshal_outcome.splits)

lemma getEnvIP_cases:
  "getEnvIP oc =
     (if \<not> dotenv_load oc then (('''', Some ErrLoadEnv), [DotenvLoad])
      else if getenv oc = '''' then (('''', Some ErrIPNotFound), [DotenvLoad])
      else ((getenv oc, None), [DotenvLoad]))"
  by (simp add: getEnvIP_def Let_def)

lemma envIP_cases: "envIP oc = (if dotenv_load oc then getenv oc else '''')"
  by (simp add: envIP_def getEnvIP_cases)

lemma getEnvIP_events: "snd (getEnvIP oc) = [DotenvLoad]"
  by (simp add: getEnvIP_cases)

lemma mutations_rewriteEnv [simp]: "mutations (snd (rewriteEnv newIP input)) = []"
  using rewriteEnv_events [of newIP input] by auto

lemma mutations_envEvents [simp]: "mutations (envEvents oc) = []"
  by (simp add: envEvents_def getEnvIP_events split: option.splits)

lemma mutations_queryEvents [simp]: "mutations (queryEvents oc s cur) = []"
  by (simp add: queryEvents_def)

lemma sleeps_rewriteEnv [simp]: "sleeps (snd (rewriteEnv newIP input)) = []"
  using rewriteEnv_events [of newIP input] by auto

lemma sleeps_envEvents [simp]: "sleeps (envEvents oc) = []"
  by (simp add: envEvents_def getEnvIP_events split: option.splits)

lemma sleeps_queryEvents [simp]: "sleeps (queryEvents oc s cur) = []"
  by (simp add: queryEvents_def)

lemma update_log_envEvents [simp]: "Log (LogUpdatingEnvFile x) \<notin> set (envEvents oc)"
  by (simp add: envEvents_def getEnvIP_events split: option.splits)

lemma update_log_queryEvents [simp]: "Log (LogUpdatingEnvFile x) \<notin> set (queryEvents oc s cur)"
  by (simp add: queryEvents_def)

lemma update_log_rewriteEnv [simp]:
  "Log (LogUpdatingEnvFile x) \<notin> set (snd (rewriteEnv newIP input))"
  using rewriteEnv_events [of newIP input] by auto

lemma update_log_updateEnvFile [simp]:
  "Log (LogUpdatingEnvFile x) \<in> set (snd (snd (updateEnvFile oc cur s))) \<longleftrightarrow> x = cur"
  by (auto simp: updateEnvFile_cases split: write_outcome.splits command_outcome.splits)

section \<open>A pass of the loop, case by case\<close>

lemma queryStoredIP_cases:
  "queryStoredIP oc s =
     (if \<not> query_row oc then ('''', Some ErrQuery)
      else if ip_store s = [] then ('''', Some ErrNoRows)
      else (last (ip_store s), None))"
  by (simp add: queryStoredIP_def split: list.splits)

lemma queryStoredIP_counter [simp]:
  "queryStoredIP oc (s\<lparr>consecutiveErrors := n\<rparr>) = queryStoredIP oc s"
  by (simp add: queryStoredIP_cases)

lemma required_counter [simp]:
  "required oc (s\<lparr>consecutiveErrors := n\<rparr>) cur = required oc s cur"
  by (simp add: required_def)

lemma queryEvents_counter [simp]:
  "queryEvents oc (s\<lparr>consecutiveErrors := n\<rparr>) cur = queryEvents oc s cur"
  by (simp add: queryEvents_def)

lemma updateMutations_counter [simp]:
  "updateMutations oc cur (s\<lparr>consecutiveErrors := n\<rparr>) = updateMutations oc cur s"
  by (simp add: updateMutations_def)

text \<open>The condition of the source and the rule of the specification agree once the query has run.\<close>

lemma required_iff:
  assumes "query_row oc"
  shows "required oc s cur \<longleftrightarrow> decisionRule (ip_store s) cur (envIP oc)"
  using assms by (auto simp: required_def updateNeeded_def queryStoredIP_cases decisionRule_def)

lemma reconcile_query_failed:
  assumes "\<not> query_row oc"
  shows "reconcile oc cur s =
     (s, envEvents oc @ [Query, Log (LogQueryError ErrQuery),
           Log (LogWillRetryQuery retryInterval), Sleep retryInterval])"
  using assms
  by (simp add: reconcile_def queryStoredIP_cases envEvents_def split: prod.splits)

lemma reconcile_no_update:
  assumes "query_row oc" and "\<not> required oc s cur"
  shows "reconcile oc cur s =
     (s, queryEvents oc s cur @ [Log (LogNoChange cur), Log (LogWaiting checkInterval),
           Sleep checkInterval])"
  using assms
  by (cases "ip_store s = []")
    (auto simp: reconcile_def decide_def required_def envIP_def queryStoredIP_cases
      envEvents_def queryEvents_def Let_def split: prod.splits)

lemma reconcile_update:
  assumes "query_row oc" and "required oc s cur"
  shows "reconcile oc cur s =
     (case updateEnvFile oc cur s of
        (Some e, s', uevs) \<Rightarrow>
          (s', queryEvents oc s cur @ uevs
             @ [Log (LogUpdateError e), Log (LogRetrying retryInterval), Sleep retryInterval])
      | (None, s', uevs) \<Rightarrow>
          if db_insert oc then
            (s'\<lparr>ip_store := ip_store s' @ [cur]\<rparr>,
             queryEvents oc s cur @ uevs
               @ [Insert cur, Log (LogInserted cur),
                  Log (LogWaiting checkInterval), Sleep checkInterval])
          else
            (s', queryEvents oc s cur @ uevs
               @ [Insert cur, Log (LogInsertError ErrInsert),
                  Log (LogWaiting checkInterval), Sleep checkInterval]))"
  using assms
  by (cases "ip_store s = []")
    (auto simp: reconcile_def decide_def required_def envIP_def queryStoredIP_cases
      envEvents_def queryEvents_def Let_def split: prod.splits option.splits)

lemma reconcile_prefix: "\<exists>rest. snd (reconcile oc cur s) = envEvents oc @ [Query] @ rest"
proof (cases "query_row oc")
  case False
  then show ?thesis by (simp add: reconcile_query_failed)
next
  case q: True
  show ?thesis
  proof (cases "required oc s cur")
    case False
    with q show ?thesis by (simp add: reconcile_no_update queryEvents_def)
  next
    case True
    with q show ?thesis
      by (cases "updateEnvFile oc cur s" rule: prod_cases3)
        (simp add: reconcile_update queryEvents_def split: option.splits)
  qed
qed

lemma reconcile_counter [simp]:
  "consecutiveErrors (fst (reconcile oc cur s)) = consecutiveErrors s"
proof (cases "query_row oc")
  case False
  then show ?thesis by (simp add: reconcile_query_failed)
next
  case q: True
  show ?thesis
  proof (cases "required oc s cur")
    case False
    with q show ?thesis by (simp add: reconcile_no_update)
  next
    case True
    with q show ?thesis
      by (simp add: reconcile_update updateEnvFile_cases
          split: write_outcome.splits command_outcome.splits)
  qed
qed

lemma mutations_reconcile:
  "mutations (snd (reconcile oc cur s)) =
     (if query_row oc \<and> required oc s cur then updateMutations oc cur s else [])"
proof (cases "query_row oc")
  case False
  then show ?thesis by (simp add: reconcile_query_failed)
next
  case q: True
  show ?thesis
  proof (cases "required oc s cur")
    case False
    with q show ?thesis by (simp add: reconcile_no_update)
  next
    case True
    with q show ?thesis
      by (simp add: reconcile_update updateEnvFile_cases updateMutations_def
          split: write_outcome.splits command_outcome.splits)
  qed
qed

lemma update_log_reconcile:
  "Log (LogUpdatingEnvFile x) \<in> set (snd (reconcile oc cur s)) \<longleftrightarrow>
     x = cur \<and> query_row oc \<and> required oc s cur"
proof (cases "query_row oc")
  case False
  then show ?thesis by (simp add: reconcile_query_failed)
next
  case q: True
  show ?thesis
  proof (cases "required oc s cur")
    case False
    with q show ?thesis by (simp add: reconcile_no_update)
  next
    case True
    with q update_log_updateEnvFile [of x oc cur s] show ?thesis
      by (cases "updateEnvFile oc cur s" rule: prod_cases3)
        (auto simp: reconcile_update split: option.splits)
  qed
qed

lemma tick_fetch_failed:
  assumes "snd (fst (getCurrentIP oc)) = Some e"
  shows "tick oc s =
     (s\<lparr>consecutiveErrors := consecutiveErrors s + 1\<rparr>,
      [Log LogFetching, HttpGet,
       Log (LogFetchError (consecutiveErrors s + 1) maxConsecutiveErrors e)]
        @ (if maxConsecutiveErrors \<le>s consecutiveErrors s + 1
           then [Log LogMultipleErrors, Sleep (checkInterval * 2)]
           else [Sleep retryInterval]))"
  using assms getCurrentIP_events [of oc]
  by (auto simp: tick_def Let_def split: prod.splits option.splits)

lemma tick_fetched:
  assumes "fst (getCurrentIP oc) = (cur, None)"
  shows "tick oc s =
     (fst (reconcile oc cur (s\<lparr>consecutiveErrors := 0\<rparr>)),
      [Log LogFetching, HttpGet, Log (LogFetched cur)]
        @ snd (reconcile oc cur (s\<lparr>consecutiveErrors := 0\<rparr>)))"
  using assms getCurrentIP_events [of oc]
  by (auto simp: tick_def Let_def split: prod.splits option.splits)

lemma mutations_tick:
  "mutations (snd (tick oc s)) =
     (case fst (getCurrentIP oc) of
        (cur, Some e) \<Rightarrow> []
      | (cur, None) \<Rightarrow>
          if query_row oc \<and> required oc s cur then updateMutations oc cur s else [])"
proof (cases "fst (getCurrentIP oc)")
  case (Pair cur err)
  show ?thesis
  proof (cases err)
    case None
    with Pair show ?thesis by (simp add: tick_fetched mutations_reconcile)
  next
    case (Some e)
    with Pair show ?thesis by (simp add: tick_fetch_failed)
  qed
qed

lemma update_log_tick:
  assumes "fst (getCurrentIP oc) = (cur, None)"
  shows "Log (LogUpdatingEnvFile x) \<in> set (snd (tick oc s)) \<longleftrightarrow>
     x = cur \<and> query_row oc \<and> required oc s cur"
  by (simp add: tick_fetched [OF assms] update_log_reconcile)

text \<open>The state after a pass whose fetch succeeded.\<close>

lemma tick_state:
  assumes "fst (getCurrentIP oc) = (cur, None)"
  shows "fst (tick oc s) =
     (if query_row oc \<and> required oc s cur then
        (if \<not> read_file oc then s\<lparr>consecutiveErrors := 0\<rparr>
         else (case write_file oc of
                 WriteFailed left \<Rightarrow> s\<lparr>consecutiveErrors := 0, env_file := left\<rparr>
               | Written \<Rightarrow>
                   if docker_up oc = ExitZero \<and> db_insert oc then
                     s\<lparr>consecutiveErrors := 0, env_file := fst (rewriteEnv cur (env_file s)),
                       ip_store := ip_store s @ [cur]\<rparr>
                   else s\<lparr>consecutiveErrors := 0, env_file := fst (rewriteEnv cur (env_file s))\<rparr>))
      else s\<lparr>consecutiveErrors := 0\<rparr>)"
proof (cases "query_row oc")
  case False
  then show ?thesis by (simp add: tick_fetched [OF assms] reconcile_query_failed)
next
  case q: True
  show ?thesis
  proof (cases "required oc s cur")
    case False
    with q show ?thesis by (simp add: tick_fetched [OF assms] reconcile_no_update)
  next
    case True
    with q show ?thesis
      by (simp add: tick_fetched [OF assms] reconcile_update updateEnvFile_cases
          split: write_outcome.splits command_outcome.splits)
  qed
qed

text \<open>The whole trace of a pass whose update goes through to the insert.\<close>

lemma tick_update_trace:
  assumes "fst (getCurrentIP oc) = (cur, None)" and "query_row oc" and "required oc s cur"
    and "read_file oc" and "write_file oc = Written" and "docker_up oc = ExitZero"
  shows "snd (tick oc s) =
     ([Log LogFetching, HttpGet, Log (LogFetched cur)] @ queryEvents oc s cur
        @ [Log (LogUpdatingEnvFile cur), ReadFile] @ snd (rewriteEnv cur (env_file s))
        @ [WriteFile (fst (rewriteEnv cur (env_file s))), Log LogUpdatedEnvFile, Log LogRestarting])
     @ [DockerUp, Log LogRestarted, Insert cur]
     @ [Log (if db_insert oc then LogInserted cur else LogInsertError ErrInsert),
        Log (LogWaiting checkInterval), Sleep checkInterval]"
  using assms(2-)
  by (simp add: tick_fetched [OF assms(1)] reconcile_update updateEnvFile_cases)

lemma insert_in_tick:
  "Insert ip \<in> set (snd (tick oc s)) \<longleftrightarrow>
     fst (getCurrentIP oc) = (ip, None) \<and> query_row oc \<and> required oc s ip
     \<and> read_file oc \<and> write_file oc = Written \<and> docker_up oc = ExitZero"
proof -
  have "Insert ip \<in> set (snd (tick oc s)) \<longleftrightarrow> Insert ip \<in> set (mutations (snd (tick oc s)))"
    by (rule in_mutations) simp
  also have "\<dots> \<longleftrightarrow> fst (getCurrentIP oc) = (ip, None) \<and> query_row oc \<and> required oc s ip
     \<and> read_file oc \<and> write_file oc = Written \<and> docker_up oc = ExitZero"
  proof (cases "fst (getCurrentIP oc)")
    case (Pair cur err)
    then show ?thesis
      by (cases err; cases "write_file oc"; cases "docker_up oc")
        (auto simp: mutations_tick updateMutations_def)
  qed
  finally show ?thesis .
qed

lemma write_in_tick:
  "WriteFile c \<in> set (snd (tick oc s)) \<longleftrightarrow>
     (\<exists>cur. fst (getCurrentIP oc) = (cur, None) \<and> query_row oc \<and> required oc s cur
        \<and> read_file oc \<and> c = fst (rewriteEnv cur (env_file s)))"
proof -
  have "WriteFile c \<in> set (snd (tick oc s)) \<longleftrightarrow> WriteFile c \<in> set (mutations (snd (tick oc s)))"
    by (rule in_mutations) simp
  also have "\<dots> \<longleftrightarrow> (\<exists>cur. fst (getCurrentIP oc) = (cur, None) \<and> query_row oc
        \<and> required oc s cur \<and> read_file oc \<and> c = fst (rewriteEnv cur (env_file s)))"
  proof (cases "fst (getCurrentIP oc)")
    case (Pair cur err)
    then show ?thesis
      by (cases err; cases "write_file oc"; cases "docker_up oc")
        (auto simp: mutations_tick updateMutations_def)
  qed
  finally show ?thesis .
qed

lemma docker_in_tick:
  "DockerUp \<in> set (snd (tick oc s)) \<longleftrightarrow>
     (\<exists>cur. fst (getCurrentIP oc) = (cur, None) \<and> query_row oc \<and> required oc s cur
        \<and> read_file oc \<and> write_file oc = Written)"
proof -
  have "DockerUp \<in> set (snd (tick oc s)) \<longleftrightarrow> DockerUp \<in> set (mutations (snd (tick oc s)))"
    by (rule in_mutations) simp
  also have "\<dots> \<longleftrightarrow> (\<exists>cur. fst (getCurrentIP oc) = (cur, None) \<and> query_row oc
        \<and> required oc s cur \<and> read_file oc \<and> write_file oc = Written)"
  proof (cases "fst (getCurrentIP oc)")
    case (Pair cur err)
    then show ?thesis
      by (cases err; cases "write_file oc"; cases "docker_up oc")
        (auto simp: mutations_tick updateMutations_def)
  qed
  finally show ?thesis .
qed

section \<open>Runs of failed fetches\<close>

lemma sint_max: "sint maxConsecutiveErrors = 5"
  by (simp add: maxConsecutiveErrors_def)

lemma sint_of_nat_small: "n < 2 ^ 63 \<Longrightarrow> sint (of_nat n :: goint) = int n"
proof -
  assume "n < 2 ^ 63"
  then have "int n < 2 ^ 63" by (metis of_nat_less_iff of_nat_numeral of_nat_power)
  then show ?thesis
    by (simp add: signed_of_nat signed_take_bit_int_eq_self)
qed

lemma run_Cons_fst: "fst (run (oc # ocs) s) = fst (run ocs (fst (tick oc s)))"
  by (simp split: prod.splits)

lemma run_Cons_snd:
  "snd (run (oc # ocs) s) = snd (tick oc s) @ snd (run ocs (fst (tick oc s)))"
  by (simp split: prod.splits)

lemma run_failures:
  assumes "\<forall>oc\<in>set ocs. snd (fst (getCurrentIP oc)) \<noteq> None"
  shows "consecutiveErrors (fst (run ocs s)) = consecutiveErrors s + of_nat (length ocs)
     \<and> env_file (fst (run ocs s)) = env_file s \<and> ip_store (fst (run ocs s)) = ip_store s"
  using assms
proof (induction ocs arbitrary: s)
  case Nil
  show ?case by simp
next
  case (Cons oc ocs)
  from Cons.prems obtain e where e: "snd (fst (getCurrentIP oc)) = Some e" by auto
  have rest: "\<forall>oc\<in>set ocs. snd (fst (getCurrentIP oc)) \<noteq> None" using Cons.prems by simp
  show ?case
    using Cons.IH [OF rest, of "s\<lparr>consecutiveErrors := consecutiveErrors s + 1\<rparr>"]
    unfolding run_Cons_fst by (simp add: tick_fetch_failed [OF e] add.assoc)
qed

text \<open>
  The sleeps of a run of failed fetches that starts with the counter at \<open>m\<close>: the
  failure that brings the counter to \<open>k\<close> is followed by the retry interval when
  \<open>k < 5\<close> and by twice the check interval otherwise. The bound keeps the counter
  below the point where a 64-bit signed integer wraps.
\<close>

lemma run_failures_sleeps:
  assumes "\<forall>oc\<in>set ocs. snd (fst (getCurrentIP oc)) \<noteq> None"
    and "consecutiveErrors s = of_nat m" and "m + length ocs < 2 ^ 63"
  shows "sleeps (snd (run ocs s)) =
     map (\<lambda>k. if k < 5 then retryInterval else 2 * checkInterval)
       [Suc m ..< Suc (m + length ocs)]"
  using assms
proof (induction ocs arbitrary: s m)
  case Nil
  show ?case by simp
next
  case (Cons oc ocs)
  from Cons.prems(1) obtain e where e: "snd (fst (getCurrentIP oc)) = Some e" by auto
  have rest: "\<forall>oc\<in>set ocs. snd (fst (getCurrentIP oc)) \<noteq> None" using Cons.prems(1) by simp
  let ?s = "s\<lparr>consecutiveErrors := consecutiveErrors s + 1\<rparr>"
  have c: "consecutiveErrors ?s = of_nat (Suc m)" using Cons.prems(2) by simp
  have b: "Suc m + length ocs < 2 ^ 63" using Cons.prems(3) by simp
  have small: "Suc m < 2 ^ 63" using b by simp
  have si: "sint (consecutiveErrors s + 1) = int (Suc m)"
    using sint_of_nat_small [OF small] Cons.prems(2) by (simp add: add.commute)
  have first: "sleeps (snd (tick oc s)) = [if Suc m < 5 then retryInterval else 2 * checkInterval]"
    unfolding tick_fetch_failed [OF e] by (simp add: word_sle_eq sint_max si)
  have "[Suc m ..< Suc (m + length (oc # ocs))]
      = Suc m # [Suc (Suc m) ..< Suc (Suc m + length ocs)]"
    by (subst upt_rec) simp
  then show ?case
    using Cons.IH [OF rest c b] first
    unfolding run_Cons_snd by (simp add: tick_fetch_failed [OF e])
qed

section \<open>The sample inputs, evaluated\<close>

lemmas sample_defs = all_ok_def net_down_def no_ip_member_def query_down_def
  restart_fails_def insert_fails_def env_unreadable_def env_drifted_def

lemma sample_fetch:
  "fst (getCurrentIP all_ok) = (''203.0.113.5'', None)"
  "fst (getCurrentIP restart_fails) = (''203.0.113.5'', None)"
  "fst (getCurrentIP insert_fails) = (''203.0.113.5'', None)"
  "fst (getCurrentIP env_unreadable) = (''203.0.113.5'', None)"
  "fst (getCurrentIP env_drifted) = (''203.0.113.5'', None)"
  "fst (getCurrentIP query_down) = (''203.0.113.5'', None)"
  "fst (getCurrentIP net_down) = ('''', Some ErrNetwork)"
  by (simp_all add: getCurrentIP_def sample_defs StatusOK_def Let_def)

lemma sample_rewrite:
  "rewriteEnv ''203.0.113.5'' (env_file sample_state)
     = (''A=1\<newline>CHARON_P2P_EXTERNAL_HOSTNAME=203.0.113.5\<newline>B=2'',
        [Log (LogUpdatingIP ''198.51.100.7'' ''203.0.113.5'')])"
  by code_simp

lemma sample_required:
  "required all_ok sample_state ''203.0.113.5''"
  "required restart_fails sample_state ''203.0.113.5''"
  "required insert_fails sample_state ''203.0.113.5''"
  by (simp_all add: required_iff decisionRule_def envIP_cases sample_defs sample_state_def)

section \<open>Passes with the variable of the process\<close>

lemma getCurrentIP_getenv: "getCurrentIP (oc\<lparr>getenv := v\<rparr>) = getCurrentIP oc"
  by (auto simp: getCurrentIP_def split: option.splits)

text \<open>Once the process has the variable, a pass reads it and leaves it as it is.\<close>

lemma liveTick_set:
  "liveTick oc (Some v, s) =
     ((Some v, fst (tick (oc\<lparr>getenv := v\<rparr>) s)), snd (tick (oc\<lparr>getenv := v\<rparr>) s))"
  by (simp add: liveTick_def loadEnv_def Let_def split: prod.splits)

lemma liveTick_variable_kept: "fst (fst (liveTick oc (Some v, s))) = Some v"
  by (simp add: liveTick_set)

text \<open>
  A variable that differs from the newest row starts the update on every pass whose
  fetch and query succeed, whatever the file holds.
\<close>

lemma liveTick_stale_reapplies:
  assumes "fst (getCurrentIP oc) = (cur, None)" and "query_row oc" and "dotenv_load oc"
    and "ip_store s \<noteq> []" and "v \<noteq> ''''" and "v \<noteq> last (ip_store s)"
  shows "Log (LogUpdatingEnvFile cur) \<in> set (snd (liveTick oc (Some v, s)))"
proof -
  have f: "fst (getCurrentIP (oc\<lparr>getenv := v\<rparr>)) = (cur, None)"
    using assms(1) by (simp add: getCurrentIP_getenv)
  have "required (oc\<lparr>getenv := v\<rparr>) s cur"
    using assms(2-) by (simp add: required_iff decisionRule_def envIP_cases)
  then show ?thesis
    using assms(2) by (simp add: liveTick_set update_log_tick [OF f])
qed

text \<open>
  A variable equal to the fetched address and to the newest row makes the pass change
  nothing, whatever the file holds.
\<close>

lemma liveTick_drift_unseen:
  assumes "fst (getCurrentIP oc) = (cur, None)"
    and "ip_store s \<noteq> []" and "last (ip_store s) = cur"
  shows "mutations (snd (liveTick oc (Some cur, s))) = []"
    and "snd (fst (liveTick oc (Some cur, s))) = s\<lparr>consecutiveErrors := 0\<rparr>"
proof -
  have f: "fst (getCurrentIP (oc\<lparr>getenv := cur\<rparr>)) = (cur, None)"
    using assms(1) by (simp add: getCurrentIP_getenv)
  have nr: "\<not> (query_row (oc\<lparr>getenv := cur\<rparr>) \<and> required (oc\<lparr>getenv := cur\<rparr>) s cur)"
    using assms(2,3) required_iff [of "oc\<lparr>getenv := cur\<rparr>" s cur]
    by (auto simp: decisionRule_def envIP_cases)
  show "mutations (snd (liveTick oc (Some cur, s))) = []"
    using nr f by (auto simp: liveTick_set mutations_tick)
  show "snd (fst (liveTick oc (Some cur, s))) = s\<lparr>consecutiveErrors := 0\<rparr>"
    using nr tick_state [OF f, of s] by (auto simp: liveTick_set)
qed

lemma file_values:
  "fileValue (env_file old_state) = Some ''198.51.100.7''"
  "fileValue (env_file after_change) = Some ''203.0.113.5''"
  "fileValue (env_file synced_state) = Some ''203.0.113.5''"
  "fileValue (env_file drifted_state) = Some ''198.51.100.7''"
  by code_simp+

section \<open>The claims\<close>

subsection \<open>C1: the decision rule\<close>




subsection \<open>C2: the lines that hold the key\<close>

text \<open>
  C2, amended. When the update reads and writes the file and the new value holds no line
  break, the lines of the new file that begin with the key and \<open>=\<close> are the new key
  line followed by all such lines of the old file but the first. So the new file holds
  one such line when the old file held none or one, and as many as the old file when it
  held two or more: the update replaces the first and keeps the others.
\<close>

theorem updateEnvFile_key_lines:
  assumes "read_file oc" and "write_file oc = Written" and "newline \<notin> set newIP"
  shows "keyLines (env_file (fst (snd (updateEnvFile oc newIP s))))
           = (envKey @ ''='' @ newIP) # tl (keyLines (env_file s))
     \<and> length (keyLines (env_file (fst (snd (updateEnvFile oc newIP s)))))
           = max 1 (length (keyLines (env_file s)))"
proof -
  have k: "keyLines (env_file (fst (snd (updateEnvFile oc newIP s))))
      = keyLine newIP # tl (keyLines (env_file s))"
    using keyLines_rewriteEnv [OF assms(3), of "env_file s"]
    by (simp add: updateEnvFile_written [OF assms(1,2)])
  have "length (keyLine newIP # tl (keyLines (env_file s))) = max 1 (length (keyLines (env_file s)))"
    by (cases "keyLines (env_file s)") simp_all
  with k show ?thesis by (simp add: keyLine_def)
qed

text \<open>A file with one key line keeps one.\<close>

theorem updateEnvFile_key_lines_witness:
  "read_file all_ok \<and> write_file all_ok = Written \<and> newline \<notin> set ''203.0.113.5''
   \<and> keyLines (env_file sample_state) = [''CHARON_P2P_EXTERNAL_HOSTNAME=198.51.100.7'']
   \<and> keyLines (env_file (fst (snd (updateEnvFile all_ok ''203.0.113.5'' sample_state))))
       = [''CHARON_P2P_EXTERNAL_HOSTNAME=203.0.113.5'']"
proof -
  have h1: "read_file all_ok" and h2: "write_file all_ok = Written"
    by (simp_all add: all_ok_def)
  have nl: "newline \<notin> set ''203.0.113.5''"
    by code_simp
  have before: "keyLines (env_file sample_state) = [''CHARON_P2P_EXTERNAL_HOSTNAME=198.51.100.7'']"
    by code_simp
  have key: "envKey @ ''='' @ ''203.0.113.5'' = ''CHARON_P2P_EXTERNAL_HOSTNAME=203.0.113.5''"
    by code_simp
  have "keyLines (env_file (fst (snd (updateEnvFile all_ok ''203.0.113.5'' sample_state))))
       = [''CHARON_P2P_EXTERNAL_HOSTNAME=203.0.113.5'']"
    using updateEnvFile_key_lines [OF h1 h2 nl, of sample_state] unfolding before key by simp
  with h1 h2 nl before show ?thesis by blast
qed

text \<open>
  The claim as stated fails on a file that holds the key twice: the loop stops at the
  first line it replaces, and the second line stays.
\<close>

theorem updateEnvFile_second_key_line_counterexample:
  "read_file all_ok \<and> write_file all_ok = Written
   \<and> keyLines (env_file (fst (snd (updateEnvFile all_ok ''203.0.113.5'' twice_state))))
       = [''CHARON_P2P_EXTERNAL_HOSTNAME=203.0.113.5'',
          ''CHARON_P2P_EXTERNAL_HOSTNAME=192.0.2.1'']
   \<and> \<not> length (keyLines (env_file (fst (snd (updateEnvFile all_ok ''203.0.113.5''
            twice_state))))) \<le> 1"
  by code_simp

subsection \<open>C3: no insert after a failed restart\<close>

text \<open>
  C3. On every pass: if the write of the file succeeds and the restart command fails, the
  table is unchanged and no insert is attempted on that pass. And whenever a pass
  attempts an insert, the restart command has exited with status zero, and in the trace
  of the pass the insert comes right after the restart and the log line of its success,
  with no insert before them.
\<close>

theorem tick_restart_failure:
  "(write_file oc = Written \<and> docker_up oc = CommandFailed out \<longrightarrow>
      ip_store (fst (tick oc s)) = ip_store s \<and> (\<forall>ip. Insert ip \<notin> set (snd (tick oc s))))
   \<and> (Insert ip \<in> set (snd (tick oc s)) \<longrightarrow>
        docker_up oc = ExitZero
        \<and> (\<exists>pre post. snd (tick oc s) = pre @ [DockerUp, Log LogRestarted, Insert ip] @ post
              \<and> (\<forall>a. Insert a \<notin> set pre)))"
proof (intro conjI impI)
  assume a: "write_file oc = Written \<and> docker_up oc = CommandFailed out"
  show "ip_store (fst (tick oc s)) = ip_store s"
  proof (cases "fst (getCurrentIP oc)")
    case (Pair cur err)
    show ?thesis
    proof (cases err)
      case None
      with Pair a show ?thesis by (simp add: tick_state [of oc cur s])
    next
      case (Some e)
      with Pair show ?thesis by (simp add: tick_fetch_failed [of oc e])
    qed
  qed
  show "\<forall>ip. Insert ip \<notin> set (snd (tick oc s))"
    using a by (simp add: insert_in_tick)
next
  assume i: "Insert ip \<in> set (snd (tick oc s))"
  then have c: "fst (getCurrentIP oc) = (ip, None)" "query_row oc" "required oc s ip"
    "read_file oc" "write_file oc = Written" "docker_up oc = ExitZero"
    by (simp_all add: insert_in_tick)
  show "docker_up oc = ExitZero" by (rule c(6))
  let ?pre = "[Log LogFetching, HttpGet, Log (LogFetched ip)] @ queryEvents oc s ip
        @ [Log (LogUpdatingEnvFile ip), ReadFile] @ snd (rewriteEnv ip (env_file s))
        @ [WriteFile (fst (rewriteEnv ip (env_file s))), Log LogUpdatedEnvFile, Log LogRestarting]"
  have "mutations ?pre = [WriteFile (fst (rewriteEnv ip (env_file s)))]" by simp
  then have "\<forall>a. Insert a \<notin> set (mutations ?pre)" by simp
  then have "\<forall>a. Insert a \<notin> set ?pre"
    using in_mutations [of "Insert _" ?pre] by simp
  then show "\<exists>pre post. snd (tick oc s) = pre @ [DockerUp, Log LogRestarted, Insert ip] @ post
              \<and> (\<forall>a. Insert a \<notin> set pre)"
    using tick_update_trace [OF c] by blast
qed

text \<open>
  A pass that writes the file and whose restart fails leaves the table alone; a pass
  that inserts had a restart that succeeded.
\<close>

theorem tick_restart_failure_witness:
  "write_file restart_fails = Written
   \<and> docker_up restart_fails = CommandFailed ''no such service''
   \<and> DockerUp \<in> set (snd (tick restart_fails sample_state))
   \<and> ip_store (fst (tick restart_fails sample_state)) = [''198.51.100.7'']
   \<and> Insert ''203.0.113.5'' \<notin> set (snd (tick restart_fails sample_state))
   \<and> Insert ''203.0.113.5'' \<in> set (snd (tick all_ok sample_state))
   \<and> docker_up all_ok = ExitZero"
proof -
  have h: "write_file restart_fails = Written
      \<and> docker_up restart_fails = CommandFailed ''no such service''"
    by (simp add: restart_fails_def all_ok_def)
  have rf: "query_row restart_fails" "read_file restart_fails"
    by (simp_all add: restart_fails_def all_ok_def)
  have d: "DockerUp \<in> set (snd (tick restart_fails sample_state))"
    using h rf sample_fetch(2) sample_required(2) by (auto simp: docker_in_tick)
  have q: "query_row all_ok" "read_file all_ok" "write_file all_ok = Written"
    "docker_up all_ok = ExitZero"
    by (simp_all add: all_ok_def)
  have i: "Insert ''203.0.113.5'' \<in> set (snd (tick all_ok sample_state))"
    using q sample_fetch(1) sample_required(1) by (simp add: insert_in_tick)
  have st: "ip_store sample_state = [''198.51.100.7'']"
    by (simp add: sample_state_def)
  from tick_restart_failure [of restart_fails "''no such service''" sample_state "''203.0.113.5''"] h
  have a: "ip_store (fst (tick restart_fails sample_state)) = [''198.51.100.7'']"
    "Insert ''203.0.113.5'' \<notin> set (snd (tick restart_fails sample_state))"
    unfolding st by blast+
  from tick_restart_failure [of all_ok _ sample_state "''203.0.113.5''"] i
  have b: "docker_up all_ok = ExitZero" by blast
  show ?thesis using h d a i b by blast
qed

subsection \<open>C4: drift of the configuration\<close>

text \<open>
  C4. The claim: on a pass where the stored value is \<open>A\<close>, the monitored value of the
  configuration record is \<open>B\<close>, different from \<open>A\<close>, and the fetched address is \<open>A\<close>,
  the program writes \<open>A\<close> to the configuration and runs the restart. The program aims at
  this: \<open>getEnvIP\<close> loads the \<open>.env\<close> file on every pass, and the third condition of the
  \<open>if\<close> statement compares what it returns with the stored value. It misses it, because
  the value returned is the variable of the process, which the loader sets once and never
  replaces. The run below shows it. A process without the variable makes a pass with the
  file and the table at \<open>203.0.113.5\<close>: the variable becomes \<open>203.0.113.5\<close> and nothing
  changes. The file is then edited to \<open>198.51.100.7\<close>. On the next pass the service
  answers \<open>203.0.113.5\<close>, the newest row is \<open>203.0.113.5\<close> and the file holds
  \<open>198.51.100.7\<close>; the pass is the pass of \<open>tick\<close> in which \<open>os.Getenv\<close> answers
  \<open>203.0.113.5\<close>: it makes no write, no restart and no insert, and the file keeps
  \<open>198.51.100.7\<close>. Only a process that does not have the variable yet sees the drift
  (last line).
\<close>

theorem drift_after_load_unseen:
  "fst (liveTick all_ok (None, synced_state)) = (Some ''203.0.113.5'', synced_state)
   \<and> fst (getCurrentIP all_ok) = (''203.0.113.5'', None)
   \<and> last (ip_store drifted_state) = ''203.0.113.5''
   \<and> fileValue (env_file drifted_state) = Some ''198.51.100.7''
   \<and> liveTick all_ok (Some ''203.0.113.5'', drifted_state)
       = ((Some ''203.0.113.5'', fst (tick all_ok drifted_state)), snd (tick all_ok drifted_state))
   \<and> mutations (snd (tick all_ok drifted_state)) = []
   \<and> fst (tick all_ok drifted_state) = drifted_state
   \<and> mutations (snd (liveTick all_ok (None, drifted_state)))
       = [WriteFile ''CHARON_P2P_EXTERNAL_HOSTNAME=203.0.113.5'', DockerUp, Insert ''203.0.113.5'']"
proof -
  have a: "fst (liveTick all_ok (None, synced_state)) = (Some ''203.0.113.5'', synced_state)"
    by code_simp
  have b: "last (ip_store drifted_state) = ''203.0.113.5''"
    by (simp add: drifted_state_def)
  have same: "all_ok\<lparr>getenv := ''203.0.113.5''\<rparr> = all_ok"
    by (simp add: all_ok_def)
  have c: "liveTick all_ok (Some ''203.0.113.5'', drifted_state)
       = ((Some ''203.0.113.5'', fst (tick all_ok drifted_state)), snd (tick all_ok drifted_state))"
    by (simp add: liveTick_set same)
  have d: "mutations (snd (tick all_ok drifted_state)) = []"
    by code_simp
  have e: "fst (tick all_ok drifted_state) = drifted_state"
    by code_simp
  have g: "mutations (snd (liveTick all_ok (None, drifted_state)))
       = [WriteFile ''CHARON_P2P_EXTERNAL_HOSTNAME=203.0.113.5'', DockerUp, Insert ''203.0.113.5'']"
    by code_simp
  show ?thesis
    using a sample_fetch(1) b file_values(4) c d e g by blast
qed

subsection \<open>C5: a pass in agreement\<close>

text \<open>
  C5. The claim: on a pass where the fetched address equals both the newest row of the
  table and the monitored value of the configuration record, nothing is written, no
  restart is run, no row is inserted. The program misses it after the first change of
  address, by the same defect as in C4: the update writes the file but the variable of
  the process keeps the value of the first load. The run below shows it. A process
  without the variable starts with the file and the table at \<open>198.51.100.7\<close> and the
  service answers \<open>203.0.113.5\<close>: the first pass loads \<open>198.51.100.7\<close> into the
  variable and, rightly, rewrites the file, restarts and inserts. On the second pass the
  fetched address, the newest row and the value in the file are all \<open>203.0.113.5\<close>;
  the pass is the pass of \<open>tick\<close> in which \<open>os.Getenv\<close> answers \<open>198.51.100.7\<close>: it
  writes the file, runs the restart and inserts a second row \<open>203.0.113.5\<close>. The
  variable is unchanged, so every later pass does the same.
\<close>

theorem agreement_reapplied:
  "fst (liveTick all_ok (None, old_state)) = (Some ''198.51.100.7'', after_change)
   \<and> fst (getCurrentIP all_ok) = (''203.0.113.5'', None)
   \<and> last (ip_store after_change) = ''203.0.113.5''
   \<and> fileValue (env_file after_change) = Some ''203.0.113.5''
   \<and> liveTick all_ok (Some ''198.51.100.7'', after_change)
       = ((Some ''198.51.100.7'', fst (tick env_drifted after_change)),
          snd (tick env_drifted after_change))
   \<and> mutations (snd (tick env_drifted after_change))
       = [WriteFile ''CHARON_P2P_EXTERNAL_HOSTNAME=203.0.113.5'', DockerUp, Insert ''203.0.113.5'']
   \<and> ip_store (fst (tick env_drifted after_change))
       = [''198.51.100.7'', ''203.0.113.5'', ''203.0.113.5'']
   \<and> env_file (fst (tick env_drifted after_change)) = env_file after_change"
proof -
  have a: "fst (liveTick all_ok (None, old_state)) = (Some ''198.51.100.7'', after_change)"
    by code_simp
  have b: "last (ip_store after_change) = ''203.0.113.5''"
    by (simp add: after_change_def)
  have c: "liveTick all_ok (Some ''198.51.100.7'', after_change)
       = ((Some ''198.51.100.7'', fst (tick env_drifted after_change)),
          snd (tick env_drifted after_change))"
    by (simp add: liveTick_set env_drifted_def)
  have d: "mutations (snd (tick env_drifted after_change))
       = [WriteFile ''CHARON_P2P_EXTERNAL_HOSTNAME=203.0.113.5'', DockerUp, Insert ''203.0.113.5'']"
    by code_simp
  have e: "ip_store (fst (tick env_drifted after_change))
       = [''198.51.100.7'', ''203.0.113.5'', ''203.0.113.5'']"
    by code_simp
  have g: "env_file (fst (tick env_drifted after_change)) = env_file after_change"
    by code_simp
  show ?thesis
    using a sample_fetch(1) b file_values(2) c d e g by blast
qed

subsection \<open>C6: the counter of failed fetches and the sleep that follows\<close>

text \<open>
  C6. A pass whose fetch fails adds one to the counter, touches neither the file nor
  the table, and its whole trace is the request, the log line of the error and one
  sleep: the retry interval (5 s) while the new value of the counter is below 5, twice
  the check interval (20 s) once it is 5 or more. A pass whose fetch succeeds sets the
  counter to 0. Over a run of passes that all fail, the file and the table stay as they
  were and the counter grows by the number of passes; when the run starts at 0, the
  sleep after the \<open>k\<close>-th failure is the retry interval for \<open>k < 5\<close> and twice the check
  interval from the fifth on (for runs shorter than \<open>2^63\<close>, where the counter wraps).
\<close>

theorem tick_backoff:
  "(snd (fst (getCurrentIP oc)) = Some e \<longrightarrow>
      consecutiveErrors (fst (tick oc s)) = consecutiveErrors s + 1
      \<and> env_file (fst (tick oc s)) = env_file s
      \<and> ip_store (fst (tick oc s)) = ip_store s
      \<and> snd (tick oc s) =
          [Log LogFetching, HttpGet, Log (LogFetchError (consecutiveErrors s + 1) 5 e)]
            @ (if sint (consecutiveErrors s + 1) < 5 then [Sleep retryInterval]
               else [Log LogMultipleErrors, Sleep (2 * checkInterval)]))
   \<and> (snd (fst (getCurrentIP oc)) = None \<longrightarrow> consecutiveErrors (fst (tick oc s)) = 0)
   \<and> ((\<forall>oc\<in>set ocs. snd (fst (getCurrentIP oc)) \<noteq> None) \<longrightarrow>
        env_file (fst (run ocs s)) = env_file s
        \<and> ip_store (fst (run ocs s)) = ip_store s
        \<and> consecutiveErrors (fst (run ocs s)) = consecutiveErrors s + of_nat (length ocs)
        \<and> (consecutiveErrors s = 0 \<and> length ocs < 2 ^ 63 \<longrightarrow>
             sleeps (snd (run ocs s)) =
               map (\<lambda>k. if k < 5 then retryInterval else 2 * checkInterval)
                 [1 ..< Suc (length ocs)]))"
proof (intro conjI impI)
  assume f: "snd (fst (getCurrentIP oc)) = Some e"
  note t = tick_fetch_failed [OF f, of s]
  show "consecutiveErrors (fst (tick oc s)) = consecutiveErrors s + 1"
    and "env_file (fst (tick oc s)) = env_file s"
    and "ip_store (fst (tick oc s)) = ip_store s"
    by (simp_all add: t)
  show "snd (tick oc s) =
          [Log LogFetching, HttpGet, Log (LogFetchError (consecutiveErrors s + 1) 5 e)]
            @ (if sint (consecutiveErrors s + 1) < 5 then [Sleep retryInterval]
               else [Log LogMultipleErrors, Sleep (2 * checkInterval)])"
    unfolding t by (simp add: word_sle_eq sint_max) (simp add: maxConsecutiveErrors_def)
next
  assume "snd (fst (getCurrentIP oc)) = None"
  then have "fst (getCurrentIP oc) = (fst (fst (getCurrentIP oc)), None)"
    by (simp add: prod_eq_iff)
  then show "consecutiveErrors (fst (tick oc s)) = 0"
    by (simp add: tick_fetched [of oc "fst (fst (getCurrentIP oc))"])
next
  assume a: "\<forall>oc\<in>set ocs. snd (fst (getCurrentIP oc)) \<noteq> None"
  show "env_file (fst (run ocs s)) = env_file s"
    and "ip_store (fst (run ocs s)) = ip_store s"
    and "consecutiveErrors (fst (run ocs s)) = consecutiveErrors s + of_nat (length ocs)"
    using run_failures [OF a, of s] by simp_all
  assume b: "consecutiveErrors s = 0 \<and> length ocs < 2 ^ 63"
  show "sleeps (snd (run ocs s)) =
               map (\<lambda>k. if k < 5 then retryInterval else 2 * checkInterval)
                 [1 ..< Suc (length ocs)]"
    using run_failures_sleeps [OF a, of s 0] b by simp
qed

text \<open>
  Six failed fetches from a counter at 0: four sleeps of the retry interval, then two of
  twice the check interval; the fetch that then succeeds resets the counter.
\<close>

theorem tick_backoff_witness:
  "snd (fst (getCurrentIP net_down)) = Some ErrNetwork
   \<and> consecutiveErrors sample_state = 0
   \<and> consecutiveErrors (fst (tick net_down sample_state)) = 1
   \<and> snd (tick net_down sample_state)
       = [Log LogFetching, HttpGet, Log (LogFetchError 1 5 ErrNetwork), Sleep retryInterval]
   \<and> sleeps (snd (run (replicate 6 net_down) sample_state))
       = [retryInterval, retryInterval, retryInterval, retryInterval,
          2 * checkInterval, 2 * checkInterval]
   \<and> consecutiveErrors (fst (run (replicate 6 net_down) sample_state)) = 6
   \<and> snd (fst (getCurrentIP all_ok)) = None
   \<and> consecutiveErrors (fst (tick all_ok (fst (run (replicate 6 net_down) sample_state)))) = 0"
proof -
  have f: "snd (fst (getCurrentIP net_down)) = Some ErrNetwork"
    by (simp add: sample_fetch)
  have z: "consecutiveErrors sample_state = 0"
    by (simp add: sample_state_def)
  have all: "\<forall>oc\<in>set (replicate 6 net_down). snd (fst (getCurrentIP oc)) \<noteq> None"
    using f by simp
  have len: "length (replicate 6 net_down) < 2 ^ 63"
    by simp
  have m: "map (\<lambda>k. if k < 5 then retryInterval else 2 * checkInterval) [1 ..< Suc 6]
      = [retryInterval, retryInterval, retryInterval, retryInterval,
          2 * checkInterval, 2 * checkInterval]"
    by (simp add: upt_rec)
  have ok: "snd (fst (getCurrentIP all_ok)) = None"
    by (simp add: sample_fetch)
  note t = tick_backoff [of net_down ErrNetwork sample_state "replicate 6 net_down"]
  have one: "consecutiveErrors (fst (tick net_down sample_state)) = 1"
    "snd (tick net_down sample_state)
       = [Log LogFetching, HttpGet, Log (LogFetchError 1 5 ErrNetwork), Sleep retryInterval]"
    using t f z by simp_all
  have six: "sleeps (snd (run (replicate 6 net_down) sample_state))
       = [retryInterval, retryInterval, retryInterval, retryInterval,
          2 * checkInterval, 2 * checkInterval]"
    "consecutiveErrors (fst (run (replicate 6 net_down) sample_state)) = 6"
    using t all len z m by simp_all
  have reset:
    "consecutiveErrors (fst (tick all_ok (fst (run (replicate 6 net_down) sample_state)))) = 0"
    using tick_backoff [of all_ok _ "fst (run (replicate 6 net_down) sample_state)" "[]"] ok
    by simp
  show ?thesis using f z one six ok reset by simp
qed

subsection \<open>C7: the other lines of the file\<close>

text \<open>
  C7. For every file content and every new value, with \<open>ls\<close> the lines of the content
  and \<open>out\<close> the bytes the update computes for the file: if a line begins with the key
  and \<open>=\<close>, then \<open>out\<close> is the join of \<open>ls\<close> with its first such line replaced by the
  key, \<open>=\<close> and the new value, every other line being the same text at the same
  position; if no line begins with the key, \<open>out\<close> is the old content, a line break and
  the new key line, so the new line comes last and the old lines are untouched. When the
  new value holds no line break, the lines of \<open>out\<close> are exactly these lines. A call of
  \<open>updateEnvFile\<close> that reads and writes the file leaves \<open>out\<close> in it.
\<close>

theorem rewriteEnv_frame:
  assumes "ls = Split input newline"
    and "i = firstKeyLine input"
    and "out = fst (rewriteEnv newIP input)"
  shows "(if keyLines input \<noteq> [] then
           i < length ls \<and> HasPrefix (ls ! i) (envKey @ ''='')
           \<and> (\<forall>j<i. \<not> HasPrefix (ls ! j) (envKey @ ''=''))
           \<and> out = Join (ls[i := envKey @ ''='' @ newIP]) [newline]
           \<and> (newline \<notin> set newIP \<longrightarrow>
                Split out newline = ls[i := envKey @ ''='' @ newIP]
                \<and> length (Split out newline) = length ls
                \<and> Split out newline ! i = envKey @ ''='' @ newIP
                \<and> (\<forall>j<length ls. j \<noteq> i \<longrightarrow> Split out newline ! j = ls ! j))
         else
           out = input @ [newline] @ envKey @ ''='' @ newIP
           \<and> (newline \<notin> set newIP \<longrightarrow> Split out newline = ls @ [envKey @ ''='' @ newIP]))
     \<and> (\<forall>oc s. read_file oc \<and> write_file oc = Written \<and> env_file s = input \<longrightarrow>
           env_file (fst (snd (updateEnvFile oc newIP s))) = out)"
proof (intro conjI allI impI)
  show "if keyLines input \<noteq> [] then
           i < length ls \<and> HasPrefix (ls ! i) (envKey @ ''='')
           \<and> (\<forall>j<i. \<not> HasPrefix (ls ! j) (envKey @ ''=''))
           \<and> out = Join (ls[i := envKey @ ''='' @ newIP]) [newline]
           \<and> (newline \<notin> set newIP \<longrightarrow>
                Split out newline = ls[i := envKey @ ''='' @ newIP]
                \<and> length (Split out newline) = length ls
                \<and> Split out newline ! i = envKey @ ''='' @ newIP
                \<and> (\<forall>j<length ls. j \<noteq> i \<longrightarrow> Split out newline ! j = ls ! j))
         else
           out = input @ [newline] @ envKey @ ''='' @ newIP
           \<and> (newline \<notin> set newIP \<longrightarrow> Split out newline = ls @ [envKey @ ''='' @ newIP])"
  proof (cases "keyLines input = []")
    case False
    have first: "i < length ls" "HasPrefix (ls ! i) (envKey @ ''='')"
      using firstKeyLine_found [OF False] assms(1,2) by simp_all
    have before: "\<forall>j<i. \<not> HasPrefix (ls ! j) (envKey @ ''='')"
      using takeWhile_before [of _ "\<lambda>l. HasPrefix l (envKey @ ''='')" ls] assms(1,2)
      by (simp add: firstKeyLine_def)
    have out: "out = Join (ls[i := keyLine newIP]) [newline]"
      using False assms by (simp add: rewriteEnv_output)
    have rt: "Split out newline = ls[i := keyLine newIP]" if "newline \<notin> set newIP"
      using False assms rewriteEnv_split [OF that, of input] by simp
    show ?thesis using False first before out rt by (simp add: keyLine_def)
  next
    case True
    have ne: "ls \<noteq> []" using assms(1) Split_not_Nil by simp
    have "out = Join (ls @ [keyLine newIP]) [newline]"
      using True assms by (simp add: rewriteEnv_output)
    then have bytes: "out = input @ [newline] @ keyLine newIP"
      using Join_snoc [OF ne] assms(1) Join_Split by simp
    have rt: "Split out newline = ls @ [keyLine newIP]" if "newline \<notin> set newIP"
      using True assms rewriteEnv_split [OF that, of input] by simp
    show ?thesis using True bytes rt by (simp add: keyLine_def)
  qed
next
  fix oc :: outcomes and s :: state
  assume "read_file oc \<and> write_file oc = Written \<and> env_file s = input"
  then show "env_file (fst (snd (updateEnvFile oc newIP s))) = out"
    using assms(3) by (simp add: updateEnvFile_written)
qed

text \<open>The key line between two other lines is replaced where it stands.\<close>

theorem rewriteEnv_frame_witness:
  "keyLines (env_file sample_state) \<noteq> []
   \<and> newline \<notin> set ''203.0.113.5''
   \<and> Split (env_file sample_state) newline
       = [''A=1'', ''CHARON_P2P_EXTERNAL_HOSTNAME=198.51.100.7'', ''B=2'']
   \<and> Split (fst (rewriteEnv ''203.0.113.5'' (env_file sample_state))) newline
       = [''A=1'', ''CHARON_P2P_EXTERNAL_HOSTNAME=203.0.113.5'', ''B=2'']
   \<and> read_file all_ok \<and> write_file all_ok = Written
   \<and> env_file (fst (snd (updateEnvFile all_ok ''203.0.113.5'' sample_state)))
       = fst (rewriteEnv ''203.0.113.5'' (env_file sample_state))"
proof -
  have h1: "read_file all_ok" and h2: "write_file all_ok = Written"
    by (simp_all add: all_ok_def)
  have ls: "Split (env_file sample_state) newline
              = [''A=1'', ''CHARON_P2P_EXTERNAL_HOSTNAME=198.51.100.7'', ''B=2'']"
    by code_simp
  have ex: "keyLines (env_file sample_state) \<noteq> []"
    by code_simp
  have i: "firstKeyLine (env_file sample_state) = 1"
    by code_simp
  have nl: "newline \<notin> set ''203.0.113.5''"
    by code_simp
  have key: "envKey @ ''='' @ ''203.0.113.5'' = ''CHARON_P2P_EXTERNAL_HOSTNAME=203.0.113.5''"
    by code_simp
  note t = rewriteEnv_frame [OF refl refl refl, of "env_file sample_state" "''203.0.113.5''"]
  from t [unfolded if_P [OF ex]] nl have
    "Split (fst (rewriteEnv ''203.0.113.5'' (env_file sample_state))) newline
       = (Split (env_file sample_state) newline)
           [firstKeyLine (env_file sample_state) := envKey @ ''='' @ ''203.0.113.5'']"
    by blast
  then have r:
    "Split (fst (rewriteEnv ''203.0.113.5'' (env_file sample_state))) newline
       = [''A=1'', ''CHARON_P2P_EXTERNAL_HOSTNAME=203.0.113.5'', ''B=2'']"
    unfolding i unfolding ls key by simp
  from t h1 h2 have u:
    "env_file (fst (snd (updateEnvFile all_ok ''203.0.113.5'' sample_state)))
       = fst (rewriteEnv ''203.0.113.5'' (env_file sample_state))"
    by blast
  show ?thesis using h1 h2 ex nl ls r u by blast
qed

subsection \<open>C8: the errors of the fetch\<close>

text \<open>
  C8. When the request is answered with a status and, for status 200, the body is read
  (no failure of the network: neither \<open>client.Get\<close> nor \<open>io.ReadAll\<close> fails),
  \<open>getCurrentIP\<close> returns an error exactly when the status is not 200, or the body
  cannot be decoded, or the decoded body has no \<open>ip\<close> member, or the member is the
  empty string. With an error it returns the empty string as address; without one it
  returns the decoded member, which is not empty. The three cases give the errors of the
  status, of the parse and of the empty address, in this order of the checks.
\<close>

theorem getCurrentIP_errors:
  assumes "http_get oc = Some status" and "read_body oc \<or> status \<noteq> StatusOK"
  shows "(snd (fst (getCurrentIP oc)) \<noteq> None \<longleftrightarrow>
            status \<noteq> StatusOK \<or> unmarshal oc = UnmarshalError
            \<or> unmarshal oc = Decoded None \<or> unmarshal oc = Decoded (Some ''''))
         \<and> (snd (fst (getCurrentIP oc)) \<noteq> None \<longrightarrow> fst (fst (getCurrentIP oc)) = '''')
         \<and> (snd (fst (getCurrentIP oc)) = None \<longrightarrow>
              fst (fst (getCurrentIP oc)) \<noteq> ''''
              \<and> unmarshal oc = Decoded (Some (fst (fst (getCurrentIP oc)))))
         \<and> (status \<noteq> StatusOK \<longrightarrow> snd (fst (getCurrentIP oc)) = Some (ErrStatus status))
         \<and> (status = StatusOK \<and> unmarshal oc = UnmarshalError \<longrightarrow>
              snd (fst (getCurrentIP oc)) = Some ErrParseResponse)
         \<and> (status = StatusOK
              \<and> (unmarshal oc = Decoded None \<or> unmarshal oc = Decoded (Some '''')) \<longrightarrow>
              snd (fst (getCurrentIP oc)) = Some ErrEmptyIP)"
  using assms
  by (cases "unmarshal oc")
    (auto simp: getCurrentIP_def Let_def split: option.splits)

text \<open>An answer with the member gives the address; an answer without it gives the error.\<close>

theorem getCurrentIP_errors_witness:
  "http_get all_ok = Some 200 \<and> read_body all_ok
   \<and> getCurrentIP all_ok
       = ((''203.0.113.5'', None), [Log LogFetching, HttpGet, Log (LogFetched ''203.0.113.5'')])
   \<and> http_get no_ip_member = Some 200 \<and> read_body no_ip_member
   \<and> unmarshal no_ip_member = Decoded None
   \<and> fst (getCurrentIP no_ip_member) = ('''', Some ErrEmptyIP)"
proof -
  have h: "http_get all_ok = Some 200" "read_body all_ok \<or> (200::int) \<noteq> StatusOK"
    by (simp_all add: all_ok_def)
  have u: "unmarshal all_ok = Decoded (Some ''203.0.113.5'')"
    by (simp add: all_ok_def)
  have ok: "snd (fst (getCurrentIP all_ok)) = None"
    using getCurrentIP_errors [OF h] u by (simp add: StatusOK_def)
  then have ip: "fst (fst (getCurrentIP all_ok)) = ''203.0.113.5''"
    using getCurrentIP_errors [OF h] u by simp
  have evs: "snd (getCurrentIP all_ok)
       = [Log LogFetching, HttpGet, Log (LogFetched ''203.0.113.5'')]"
    using getCurrentIP_events [of all_ok] unfolding ok ip by simp
  have whole: "getCurrentIP all_ok
       = ((''203.0.113.5'', None), [Log LogFetching, HttpGet, Log (LogFetched ''203.0.113.5'')])"
    using ok ip evs by (metis prod.collapse)
  have h': "http_get no_ip_member = Some 200" "read_body no_ip_member \<or> (200::int) \<noteq> StatusOK"
    by (simp_all add: no_ip_member_def all_ok_def)
  have u': "unmarshal no_ip_member = Decoded None"
    by (simp add: no_ip_member_def all_ok_def)
  have e: "snd (fst (getCurrentIP no_ip_member)) = Some ErrEmptyIP"
    using getCurrentIP_errors [OF h'] u' by (simp add: StatusOK_def)
  then have ne: "snd (fst (getCurrentIP no_ip_member)) \<noteq> None"
    by simp
  have "fst (fst (getCurrentIP no_ip_member)) = ''''"
    using getCurrentIP_errors [OF h'] ne by blast
  with e have err: "fst (getCurrentIP no_ip_member) = ('''', Some ErrEmptyIP)"
    by (metis prod.collapse)
  have rb: "read_body all_ok" "read_body no_ip_member"
    by (simp_all add: no_ip_member_def all_ok_def)
  show ?thesis
    using h(1) rb(1) whole h'(1) rb(2) u' err by blast
qed

subsection \<open>C9: a failed insert\<close>

text \<open>
  C9. On a pass that writes the file with content \<open>c\<close>, where the write and the restart
  succeed and the insert fails: the pass ends as a pass without failure does. The file
  keeps the content written, the table is unchanged, the counter is 0; the write, the
  restart and the one insert are the only calls that change something, so nothing is
  rolled back and nothing is tried again; the trace ends with the insert, the log line
  of its error, the log line of the wait and the sleep of the check interval, which is
  the only sleep of the pass.
\<close>

theorem tick_insert_failure:
  assumes "WriteFile c \<in> set (snd (tick oc s))"
    and "write_file oc = Written" and "docker_up oc = ExitZero" and "\<not> db_insert oc"
  shows "\<exists>cur pre. fst (getCurrentIP oc) = (cur, None)
     \<and> env_file (fst (tick oc s)) = c
     \<and> ip_store (fst (tick oc s)) = ip_store s
     \<and> consecutiveErrors (fst (tick oc s)) = 0
     \<and> mutations (snd (tick oc s)) = [WriteFile c, DockerUp, Insert cur]
     \<and> sleeps (snd (tick oc s)) = [checkInterval]
     \<and> snd (tick oc s) = pre @ [Insert cur, Log (LogInsertError ErrInsert),
                                  Log (LogWaiting checkInterval), Sleep checkInterval]"
proof -
  from assms(1) obtain cur where c: "fst (getCurrentIP oc) = (cur, None)" "query_row oc"
    "required oc s cur" "read_file oc" and out: "c = fst (rewriteEnv cur (env_file s))"
    by (auto simp: write_in_tick)
  note tr = tick_update_trace [OF c assms(2,3)]
  have st: "fst (tick oc s) = s\<lparr>consecutiveErrors := 0, env_file := c\<rparr>"
    using c(2-) assms(2-) out by (simp add: tick_state [OF c(1)])
  have mu: "mutations (snd (tick oc s)) = [WriteFile c, DockerUp, Insert cur]"
    using c(2-) assms(2-) out by (simp add: mutations_tick c(1) updateMutations_def)
  have sl: "sleeps (snd (tick oc s)) = [checkInterval]"
    unfolding tr by simp
  have "snd (tick oc s) =
      ([Log LogFetching, HttpGet, Log (LogFetched cur)] @ queryEvents oc s cur
        @ [Log (LogUpdatingEnvFile cur), ReadFile] @ snd (rewriteEnv cur (env_file s))
        @ [WriteFile (fst (rewriteEnv cur (env_file s))), Log LogUpdatedEnvFile, Log LogRestarting,
           DockerUp, Log LogRestarted])
      @ [Insert cur, Log (LogInsertError ErrInsert),
         Log (LogWaiting checkInterval), Sleep checkInterval]"
    unfolding tr using assms(4) by simp
  with c(1) st mu sl show ?thesis by (intro exI conjI) (assumption | simp)+
qed

theorem tick_insert_failure_witness:
  "write_file insert_fails = Written \<and> docker_up insert_fails = ExitZero
   \<and> \<not> db_insert insert_fails
   \<and> WriteFile ''A=1\<newline>CHARON_P2P_EXTERNAL_HOSTNAME=203.0.113.5\<newline>B=2''
        \<in> set (snd (tick insert_fails sample_state))
   \<and> env_file (fst (tick insert_fails sample_state))
        = ''A=1\<newline>CHARON_P2P_EXTERNAL_HOSTNAME=203.0.113.5\<newline>B=2''
   \<and> ip_store (fst (tick insert_fails sample_state)) = [''198.51.100.7'']
   \<and> sleeps (snd (tick insert_fails sample_state)) = [checkInterval]"
proof -
  have h: "write_file insert_fails = Written" "docker_up insert_fails = ExitZero"
    "\<not> db_insert insert_fails"
    by (simp_all add: insert_fails_def all_ok_def)
  have rf: "query_row insert_fails" "read_file insert_fails"
    by (simp_all add: insert_fails_def all_ok_def)
  have w: "WriteFile ''A=1\<newline>CHARON_P2P_EXTERNAL_HOSTNAME=203.0.113.5\<newline>B=2''
        \<in> set (snd (tick insert_fails sample_state))"
    using rf sample_fetch(3) sample_required(3) by (simp add: write_in_tick sample_rewrite)
  have st: "ip_store sample_state = [''198.51.100.7'']"
    by (simp add: sample_state_def)
  show ?thesis
    using tick_insert_failure [OF w h] h w unfolding st by auto
qed

subsection \<open>C10: a configuration that cannot be read\<close>

text \<open>
  C10. \<open>getEnvIP\<close> fails exactly when the \<open>.env\<close> file cannot be loaded or the key has
  no value, and in both cases the value it returns is the empty string. On a pass where
  it fails, the third condition of the \<open>if\<close> statement is false, so the statement
  decides as if only the table and the fetched address were compared; the pass goes on
  from the warning straight to the query of the table, without sleep or retry. So when
  the query runs, the update is started exactly when the table is empty or its newest
  row differs from the fetched address, and a pass whose table agrees with the fetched
  address changes nothing and sleeps the check interval.
\<close>

theorem getEnvIP_failure_absent:
  "(snd (fst (getEnvIP oc)) \<noteq> None \<longleftrightarrow> \<not> dotenv_load oc \<or> getenv oc = '''')
   \<and> (\<not> dotenv_load oc \<longrightarrow> fst (getEnvIP oc) = ('''', Some ErrLoadEnv))
   \<and> (dotenv_load oc \<and> getenv oc = '''' \<longrightarrow> fst (getEnvIP oc) = ('''', Some ErrIPNotFound))
   \<and> (snd (fst (getEnvIP oc)) = Some e \<longrightarrow>
        envIP oc = ''''
        \<and> updateNeeded err storedIP cur (envIP oc)
            = (err = Some ErrNoRows \<or> (err = None \<and> storedIP \<noteq> cur))
        \<and> (fst (getCurrentIP oc) = (cur, None) \<longrightarrow>
             (\<exists>rest. snd (tick oc s) =
                [Log LogFetching, HttpGet, Log (LogFetched cur),
                 DotenvLoad, Log (LogEnvWarning e), Query] @ rest)
             \<and> (query_row oc \<longrightarrow>
                  (Log (LogUpdatingEnvFile cur) \<in> set (snd (tick oc s))
                     \<longleftrightarrow> ip_store s = [] \<or> last (ip_store s) \<noteq> cur))
             \<and> (query_row oc \<and> ip_store s \<noteq> [] \<and> last (ip_store s) = cur \<longrightarrow>
                  fst (tick oc s) = s\<lparr>consecutiveErrors := 0\<rparr>
                  \<and> mutations (snd (tick oc s)) = []
                  \<and> sleeps (snd (tick oc s)) = [checkInterval])))"
proof (intro conjI impI)
  show "(snd (fst (getEnvIP oc)) \<noteq> None) = (\<not> dotenv_load oc \<or> getenv oc = '''')"
    by (simp add: getEnvIP_cases)
  show "\<not> dotenv_load oc \<Longrightarrow> fst (getEnvIP oc) = ('''', Some ErrLoadEnv)"
    by (simp add: getEnvIP_cases)
  show "dotenv_load oc \<and> getenv oc = '''' \<Longrightarrow> fst (getEnvIP oc) = ('''', Some ErrIPNotFound)"
    by (simp add: getEnvIP_cases)
next
  assume e: "snd (fst (getEnvIP oc)) = Some e"
  then show abs: "envIP oc = ''''"
    by (simp add: envIP_def getEnvIP_cases split: if_splits)
  then show "updateNeeded err storedIP cur (envIP oc)
            = (err = Some ErrNoRows \<or> (err = None \<and> storedIP \<noteq> cur))"
    by (simp add: updateNeeded_def)
  have ev: "envEvents oc = [DotenvLoad, Log (LogEnvWarning e)]"
    using e by (simp add: envEvents_def getEnvIP_events)
  {
    assume f: "fst (getCurrentIP oc) = (cur, None)"
    show "\<exists>rest. snd (tick oc s) =
                [Log LogFetching, HttpGet, Log (LogFetched cur),
                 DotenvLoad, Log (LogEnvWarning e), Query] @ rest"
      using reconcile_prefix [of oc cur "s\<lparr>consecutiveErrors := 0\<rparr>"]
      by (auto simp: tick_fetched [OF f] ev)
    {
      assume q: "query_row oc"
      show "(Log (LogUpdatingEnvFile cur) \<in> set (snd (tick oc s)))
               = (ip_store s = [] \<or> last (ip_store s) \<noteq> cur)"
        using q abs required_iff [OF q, of s cur]
        by (auto simp: update_log_tick [OF f] decisionRule_def)
    }
    {
      assume a: "query_row oc \<and> ip_store s \<noteq> [] \<and> last (ip_store s) = cur"
      then have nr: "\<not> required oc s cur"
        using abs required_iff [of oc s cur] by (simp add: decisionRule_def)
      show "fst (tick oc s) = s\<lparr>consecutiveErrors := 0\<rparr>"
        using nr by (simp add: tick_state [OF f])
      show "mutations (snd (tick oc s)) = []"
        using nr f by (simp add: mutations_tick)
      show "sleeps (snd (tick oc s)) = [checkInterval]"
        using nr a by (simp add: tick_fetched [OF f] reconcile_no_update)
    }
  }
qed

text \<open>
  The \<open>.env\<close> file cannot be loaded, the table agrees with the service: the pass reads
  the empty string and changes nothing.
\<close>

theorem getEnvIP_failure_absent_witness:
  "snd (fst (getEnvIP env_unreadable)) = Some ErrLoadEnv
   \<and> fst (getCurrentIP env_unreadable) = (''203.0.113.5'', None)
   \<and> query_row env_unreadable
   \<and> last (ip_store synced_state) = ''203.0.113.5''
   \<and> envIP env_unreadable = ''''
   \<and> fst (tick env_unreadable synced_state) = synced_state
   \<and> mutations (snd (tick env_unreadable synced_state)) = []
   \<and> sleeps (snd (tick env_unreadable synced_state)) = [checkInterval]"
proof -
  have e: "snd (fst (getEnvIP env_unreadable)) = Some ErrLoadEnv"
    by (simp add: getEnvIP_cases env_unreadable_def all_ok_def)
  have h: "query_row env_unreadable" "ip_store synced_state \<noteq> []"
    "last (ip_store synced_state) = ''203.0.113.5''"
    by (simp_all add: env_unreadable_def all_ok_def synced_state_def)
  have z: "synced_state\<lparr>consecutiveErrors := 0\<rparr> = synced_state"
    by (simp add: synced_state_def)
  show ?thesis
    using getEnvIP_failure_absent [of env_unreadable ErrLoadEnv _ _ "''203.0.113.5''" synced_state]
      e h sample_fetch(4)
    unfolding z by simp
qed

end
